theory Spec2Isabelle
  imports Complex_Main "HOL-Library.FSet" "HOL-Library.Multiset"
begin

section \<open>Item-based collaborative filtering: the scorer and its evaluation harness\<close>

text \<open>
  A shallow embedding of \<^verbatim>\<open>recsys/evaluation.py\<close>, \<^verbatim>\<open>recsys/utils.py\<close> and
  \<^verbatim>\<open>recsys/recommend_user.py\<close>. Python floats are idealised as reals; the one place
  where pandas produces a missing value (NaN) from well-formed input, the sample standard
  deviation of a single rating, is modelled with \<open>None\<close>.
\<close>

subsection \<open>Ranking metrics (evaluation.py)\<close>

text \<open>Python's slice \<^verbatim>\<open>xs[:k]\<close>: a negative \<open>k\<close> counts from the end.\<close>

definition slice_to :: "'a list \<Rightarrow> int \<Rightarrow> 'a list" where
  "slice_to xs k =
     (if 0 \<le> k then take (nat k) xs else take (length xs - nat (- k)) xs)"

definition precision_at_k :: "int list \<Rightarrow> int fset \<Rightarrow> int \<Rightarrow> real" where
  "precision_at_k recommended_items relevant_items k =
     (if k = 0 then 0
      else let top_k = slice_to recommended_items k;
               relevant_in_top_k = length (filter (\<lambda>item. item |\<in>| relevant_items) top_k)
           in real relevant_in_top_k / real_of_int k)"

definition recall_at_k :: "int list \<Rightarrow> int fset \<Rightarrow> int \<Rightarrow> real" where
  "recall_at_k recommended_items relevant_items k =
     (if fcard relevant_items = 0 then 0
      else let top_k = slice_to recommended_items k;
               relevant_in_top_k = length (filter (\<lambda>item. item |\<in>| relevant_items) top_k)
           in real relevant_in_top_k / real (fcard relevant_items))"

definition f1_score_at_k :: "int list \<Rightarrow> int fset \<Rightarrow> int \<Rightarrow> real" where
  "f1_score_at_k recommended_items relevant_items k =
     (let precision = precision_at_k recommended_items relevant_items k;
          recall = recall_at_k recommended_items relevant_items k
      in if precision + recall = 0 then 0
         else 2 * (precision * recall) / (precision + recall))"

subsection \<open>The rating table\<close>

text \<open>
  A row of the ratings DataFrame. A frame with further columns is a list of extended
  records, so the functions that only read these four columns take any extension.
\<close>

record rating_record =
  user_id :: int
  product_id :: int
  rating :: real
  timestamp :: int

text \<open>The frame with the added column \<^verbatim>\<open>normalized_rating\<close>; \<open>None\<close> is NaN.\<close>

record normalized_record = rating_record +
  normalized_rating :: "real option"

datatype error =
    UnknownUser            \<comment> \<open>\<^verbatim>\<open>ValueError("User ... not found in dataset.")\<close>\<close>
  | InvalidConfiguration   \<comment> \<open>\<^verbatim>\<open>ValueError("Unknown normalization method: ...")\<close>\<close>
  | NoSamples              \<comment> \<open>the ValueError of sklearn on an array with no rows\<close>
  | KeyError               \<comment> \<open>a label missing from an index\<close>
  | IndexError             \<comment> \<open>a position outside a frame\<close>
  | InvalidSplit           \<comment> \<open>the ValueError of sklearn's \<^verbatim>\<open>train_test_split\<close>\<close>
  | NothingToConcatenate   \<comment> \<open>\<^verbatim>\<open>pd.concat\<close> of an empty list\<close>
  | EmptyMax               \<comment> \<open>\<^verbatim>\<open>max\<close> of an empty list\<close>
  | Failure                \<comment> \<open>any other exception of a function passed in\<close>

subsection \<open>Per-user normalisation (utils.py)\<close>

definition mean :: "real list \<Rightarrow> real" where
  "mean xs = sum_list xs / real (length xs)"

text \<open>
  The pandas \<^verbatim>\<open>std\<close> aggregate is the sample standard deviation (one degree of freedom
  removed): it is NaN for a group of fewer than two values.
\<close>

definition std :: "real list \<Rightarrow> real option" where
  "std xs =
     (if length xs < 2 then None
      else Some (sqrt (sum_list (map (\<lambda>x. (x - mean xs) * (x - mean xs)) xs)
                        / real (length xs - 1))))"

text \<open>\<^verbatim>\<open>df.groupby('user_id')['rating']\<close> at the group of user \<open>u\<close>.\<close>

definition user_group :: "('a rating_record_scheme) list \<Rightarrow> int \<Rightarrow> real list" where
  "user_group df u = map rating (filter (\<lambda>r. user_id r = u) df)"

text \<open>\<^verbatim>\<open>series.replace(0, 1)\<close> at one entry: NaN stays NaN.\<close>

definition replace_zero :: "real option \<Rightarrow> real option" where
  "replace_zero s = (case s of None \<Rightarrow> None | Some x \<Rightarrow> Some (if x = 0 then 1 else x))"

text \<open>Division by a possibly missing divisor: anything divided by NaN is NaN.\<close>

definition div_nan :: "real \<Rightarrow> real option \<Rightarrow> real option" where
  "div_nan x s = (case s of None \<Rightarrow> None | Some d \<Rightarrow> Some (x / d))"

definition with_normalized :: "rating_record \<Rightarrow> real option \<Rightarrow> normalized_record" where
  "with_normalized r v =
     \<lparr>user_id = user_id r, product_id = product_id r, rating = rating r,
      timestamp = timestamp r, normalized_rating = v\<rparr>"

definition normalize_ratings_per_user ::
  "rating_record list \<Rightarrow> string \<Rightarrow> error + normalized_record list" where
  "normalize_ratings_per_user df method =
     (if method = ''mean_center'' then
        Inr (map (\<lambda>r. let user_means = mean (user_group df (user_id r))
                      in with_normalized r (Some (rating r - user_means))) df)
      else if method = ''z_score'' then
        Inr (map (\<lambda>r. let user_means = mean (user_group df (user_id r));
                          user_stds = replace_zero (std (user_group df (user_id r)))
                      in with_normalized r (div_nan (rating r - user_means) user_stds)) df)
      else if method = ''min_max'' then
        Inr (map (\<lambda>r. let user_min = Min (set (user_group df (user_id r)));
                          user_max = Max (set (user_group df (user_id r)));
                          user_range = (if user_max - user_min = 0 then 1
                                        else user_max - user_min)
                      in with_normalized r (Some ((rating r - user_min) / user_range))) df)
      else Inl InvalidConfiguration)"

text \<open>
  \<^verbatim>\<open>denormalize_rating\<close>; the normalised value and the standard deviation may be NaN,
  and NaN propagates through the arithmetic.
\<close>

definition denormalize_rating ::
  "real option \<Rightarrow> real \<Rightarrow> real option \<Rightarrow> string \<Rightarrow> real option" where
  "denormalize_rating normalized user_mean user_std method =
     (if method = ''mean_center'' then
        (case normalized of None \<Rightarrow> None | Some v \<Rightarrow> Some (v + user_mean))
      else if method = ''z_score'' then
        (case (normalized, user_std) of
           (Some v, Some s) \<Rightarrow> Some ((v * s) + user_mean)
         | _ \<Rightarrow> None)
      else normalized)"

record user_stats =
  stats_user_id :: int
  mean_rating :: real
  std_rating :: "real option"
  min_rating :: real
  max_rating :: real
  rating_count :: nat

text \<open>One row per distinct user, in ascending order of the user id (groupby sorts).\<close>

definition get_user_statistics :: "('a rating_record_scheme) list \<Rightarrow> user_stats list" where
  "get_user_statistics df =
     map (\<lambda>u. let g = user_group df u
              in \<lparr>stats_user_id = u, mean_rating = mean g, std_rating = std g,
                  min_rating = Min (set g), max_rating = Max (set g),
                  rating_count = length g\<rparr>)
         (sort (remdups (map user_id df)))"

subsection \<open>The user-item matrix and item similarity (recommend\_user.py)\<close>

text \<open>
  \<^verbatim>\<open>df.pivot_table(index="user_id", columns="product_id", values=rating_col)\<close> groups
  the rows by (user, product), takes the mean of the values that are not NaN, drops the
  groups left without a value, and labels rows and columns with the users and products
  that remain, in ascending order. \<open>observed\<close> is the list of values that are not NaN.
\<close>

definition observed ::
  "('a rating_record_scheme) list \<Rightarrow> ('a rating_record_scheme \<Rightarrow> real option)
     \<Rightarrow> (int \<times> int \<times> real) list" where
  "observed df rating_col =
     concat (map (\<lambda>r. case rating_col r of None \<Rightarrow> []
                       | Some v \<Rightarrow> [(user_id r, product_id r, v)]) df)"

definition pivot_index :: "(int \<times> int \<times> real) list \<Rightarrow> int list" where
  "pivot_index obs = sort (remdups (map fst obs))"

definition pivot_columns :: "(int \<times> int \<times> real) list \<Rightarrow> int list" where
  "pivot_columns obs = sort (remdups (map (\<lambda>c. fst (snd c)) obs))"

text \<open>The cell of \<^verbatim>\<open>pivot.fillna(0)\<close> at row \<open>u\<close>, column \<open>p\<close>.\<close>

definition matrix_at :: "(int \<times> int \<times> real) list \<Rightarrow> int \<Rightarrow> int \<Rightarrow> real" where
  "matrix_at obs u p =
     (let vs = map (\<lambda>c. snd (snd c)) (filter (\<lambda>c. fst c = u \<and> fst (snd c) = p) obs)
      in if vs = [] then 0 else mean vs)"

text \<open>
  \<^verbatim>\<open>cosine_similarity(matrix.T)\<close> of sklearn: every item's column is divided by its
  Euclidean norm, a zero norm being replaced by 1, and the similarity of two items is
  the dot product of their scaled columns.
\<close>

definition item_vector :: "int list \<Rightarrow> (int \<Rightarrow> int \<Rightarrow> real) \<Rightarrow> int \<Rightarrow> real list" where
  "item_vector index matrix p = map (\<lambda>u. matrix u p) index"

definition l2_normalize :: "real list \<Rightarrow> real list" where
  "l2_normalize v =
     (let norms = sqrt (sum_list (map (\<lambda>x. x * x) v));
          norms = (if norms = 0 then 1 else norms)
      in map (\<lambda>x. x / norms) v)"

definition cosine_similarity ::
  "int list \<Rightarrow> (int \<Rightarrow> int \<Rightarrow> real) \<Rightarrow> int \<Rightarrow> int \<Rightarrow> real" where
  "cosine_similarity index matrix p q =
     sum_list (map2 (*) (l2_normalize (item_vector index matrix p))
                        (l2_normalize (item_vector index matrix q)))"

subsection \<open>Dictionaries in insertion order\<close>

fun setdefault :: "int \<Rightarrow> real \<Rightarrow> (int \<times> real) list \<Rightarrow> (int \<times> real) list" where
  "setdefault k v [] = [(k, v)]"
| "setdefault k v (e # d) = (if fst e = k then e # d else e # setdefault k v d)"

text \<open>\<^verbatim>\<open>d[k] += x\<close> for a key that is present.\<close>

fun dict_add :: "int \<Rightarrow> real \<Rightarrow> (int \<times> real) list \<Rightarrow> (int \<times> real) list" where
  "dict_add k x [] = []"
| "dict_add k x (e # d) = (if fst e = k then (k, snd e + x) # d else e # dict_add k x d)"

subsection \<open>Scoring (recommend\_user.py)\<close>

record recommendation =
  rec_product_id :: int
  score :: real
  estimated_rating :: "real option"

text \<open>
  \<^verbatim>\<open>get_popular_items\<close>. \<^verbatim>\<open>sort_values('mean_rating', ascending=False)\<close> runs numpy's
  default sort, which promises no order among rows of equal mean; the model keeps such
  rows in their order in the frame, the order a stable sort gives. No property below
  reads the order of two popular items of equal mean.
\<close>

definition get_popular_items ::
  "('a rating_record_scheme) list \<Rightarrow> int \<Rightarrow> int \<Rightarrow> recommendation list" where
  "get_popular_items df n min_ratings =
     (let popular = map (\<lambda>p. let g = map rating (filter (\<lambda>r. product_id r = p) df)
                              in (p, mean g, length g))
                        (sort (remdups (map product_id df)));
          popular = filter (\<lambda>e. min_ratings \<le> int (snd (snd e))) popular;
          popular = slice_to (sort_key (\<lambda>e. - fst (snd e)) popular) n
      in map (\<lambda>e. \<lparr>rec_product_id = fst e, score = fst (snd e),
                    estimated_rating = Some (fst (snd e))\<rparr>) popular)"

text \<open>The body of the inner loop, for one entry \<open>(other, sim)\<close> of \<^verbatim>\<open>similar_items\<close>.\<close>

definition score_step ::
  "(int \<Rightarrow> real) \<Rightarrow> real \<Rightarrow> real \<Rightarrow> int \<times> real
     \<Rightarrow> (int \<times> real) list \<times> (int \<times> real) list
     \<Rightarrow> (int \<times> real) list \<times> (int \<times> real) list" where
  "score_step user_ratings min_similarity product_rating e acc =
     (let other = fst e; sim = snd e; scores = fst acc; score_weights = snd acc
      in if user_ratings other = 0 \<and> min_similarity \<le> sim then
           (dict_add other (sim * product_rating) (setdefault other 0 scores),
            dict_add other \<bar>sim\<bar> (setdefault other 0 score_weights))
         else (scores, score_weights))"

text \<open>
  The body of the outer loop, for one rated \<open>product\<close>: \<^verbatim>\<open>sim_df[product].drop(product)\<close>
  holds the similarity of every other column label to \<open>product\<close>.
\<close>

definition score_product ::
  "int list \<Rightarrow> (int \<Rightarrow> int \<Rightarrow> real) \<Rightarrow> (int \<Rightarrow> real) \<Rightarrow> real \<Rightarrow> int
     \<Rightarrow> (int \<times> real) list \<times> (int \<times> real) list
     \<Rightarrow> (int \<times> real) list \<times> (int \<times> real) list" where
  "score_product columns sim_df user_ratings min_similarity product acc =
     (let similar_items = map (\<lambda>other. (other, sim_df other product))
                              (filter (\<lambda>other. other \<noteq> product) columns);
          product_rating = user_ratings product
      in fold (score_step user_ratings min_similarity product_rating) similar_items acc)"

text \<open>
  \<^verbatim>\<open>for item in scores: if score_weights[item] > 0: scores[item] /= score_weights[item]\<close>.
  The two dictionaries always hold the same keys, so the lookup cannot fail.
\<close>

definition normalize_scores ::
  "(int \<times> real) list \<Rightarrow> (int \<times> real) list \<Rightarrow> (int \<times> real) list" where
  "normalize_scores scores score_weights =
     map (\<lambda>e. case map_of score_weights (fst e) of
                 Some w \<Rightarrow> if 0 < w then (fst e, snd e / w) else e
               | None \<Rightarrow> e) scores"

definition clip :: "real \<Rightarrow> real \<Rightarrow> real option \<Rightarrow> real option" where
  "clip lo hi x = (case x of None \<Rightarrow> None | Some v \<Rightarrow> Some (min (max v lo) hi))"

text \<open>
  Lines 50 to 122 of \<^verbatim>\<open>recommend_for_user\<close>: everything after the choice of the
  frame and of its rating column. \<open>normalization\<close> is \<open>None\<close> when \<^verbatim>\<open>use_normalized\<close> is
  false and the method otherwise. \<^verbatim>\<open>sort_values("score", ascending=False)\<close> runs
  numpy's default sort, which promises no order among rows of equal score; the model
  keeps such rows in their order in the frame, the order a stable sort gives. The only
  property below that reads the order of rows of equal score is the example of two tied
  rows in \<open>ties_not_by_product_id\<close>.
\<close>

definition recommend_scored ::
  "('a rating_record_scheme) list \<Rightarrow> ('a rating_record_scheme \<Rightarrow> real option) \<Rightarrow> int
     \<Rightarrow> int \<Rightarrow> real \<Rightarrow> string option \<Rightarrow> error + recommendation list" where
  "recommend_scored df rating_col uid n min_similarity normalization =
     (let obs = observed df rating_col;
          index = pivot_index obs;
          columns = pivot_columns obs;
          matrix = matrix_at obs;
          sim_df = cosine_similarity index matrix
      in if index = [] then Inl NoSamples
         else if uid \<notin> set index then Inl KeyError
         else
           let user_ratings = matrix uid;
               rated_items = filter (\<lambda>p. 0 < user_ratings p) columns
           in if rated_items = [] then Inr (get_popular_items df n 5)
              else
                let acc = fold (score_product columns sim_df user_ratings min_similarity)
                               rated_items ([], []);
                    scores = normalize_scores (fst acc) (snd acc)
                in if scores = [] then Inr []
                   else
                     let recs = slice_to (sort_key (\<lambda>e. - snd e) scores) n
                     in case normalization of
                          None \<Rightarrow>
                            Inr (map (\<lambda>e. \<lparr>rec_product_id = fst e, score = snd e,
                                          estimated_rating = clip 0.5 5.0 (Some (snd e))\<rparr>) recs)
                        | Some method \<Rightarrow>
                            (case get_user_statistics (filter (\<lambda>r. user_id r = uid) df) of
                               [] \<Rightarrow> Inl IndexError
                             | user_stats # _ \<Rightarrow>
                                 let user_mean = mean_rating user_stats;
                                     user_std = std_rating user_stats
                                 in Inr (map (\<lambda>e. \<lparr>rec_product_id = fst e, score = snd e,
                                       estimated_rating = clip 0.5 5.0
                                         (if method = ''mean_center'' then Some (snd e + user_mean)
                                          else if method = ''z_score'' then
                                            (case user_std of None \<Rightarrow> None
                                             | Some s \<Rightarrow> Some ((snd e * s) + user_mean))
                                          else Some (snd e))\<rparr>) recs)))"

text \<open>
  \<^verbatim>\<open>recommend_for_user\<close>. \<^verbatim>\<open>min_common_items\<close> only decides whether a warning is
  printed.
\<close>

definition recommend_for_user ::
  "rating_record list \<Rightarrow> int \<Rightarrow> int \<Rightarrow> real \<Rightarrow> bool \<Rightarrow> string \<Rightarrow> int
     \<Rightarrow> error + recommendation list" where
  "recommend_for_user df uid n min_similarity use_normalized normalization_method
       min_common_items =
     (if uid \<notin> set (map user_id df) then Inl UnknownUser
      else if use_normalized then
        (case normalize_ratings_per_user df normalization_method of
           Inl e \<Rightarrow> Inl e
         | Inr ndf \<Rightarrow>
             recommend_scored ndf normalized_rating uid n min_similarity
               (Some normalization_method))
      else recommend_scored df (\<lambda>r. Some (rating r)) uid n min_similarity None)"

subsection \<open>Train/test split (evaluation.py)\<close>

text \<open>
  \<^verbatim>\<open>train_test_split(user_data, test_size=test_size, random_state=random_state)\<close> of
  sklearn, for a float \<open>test_size\<close> and an integer \<open>random_state\<close>. The generator is not part
  of the repository: \<open>rng seed\<close> stands for the generator seeded with \<open>seed\<close>, and
  \<open>rng seed n\<close> for the permutation of the positions \<open>0..<n\<close> it draws.

  \<^verbatim>\<open>check_random_state\<close>: numpy takes a seed from \<open>0\<close> to \<^verbatim>\<open>2**32 - 1\<close> only; any other
  integer raises.
\<close>

definition check_random_state ::
  "(int \<Rightarrow> nat \<Rightarrow> nat list) \<Rightarrow> int \<Rightarrow> error + (nat \<Rightarrow> nat list)" where
  "check_random_state rng seed =
     (if 0 \<le> seed \<and> seed < 2 ^ 32 then Inr (rng seed) else Inl InvalidSplit)"

text \<open>
  The shuffled split itself: the test side takes \<open>ceil(test_size * n)\<close> rows and the train
  side the rest; a \<open>test_size\<close> outside \<open>(0, 1)\<close> or an empty train side raises. The first
  \<open>n_test\<close> positions of the permutation go to the test side, the next \<open>n_train\<close> to the
  train side.
\<close>

definition shuffle_split ::
  "(nat \<Rightarrow> nat list) \<Rightarrow> 'a list \<Rightarrow> real \<Rightarrow> error + ('a list \<times> 'a list)" where
  "shuffle_split permutation arr test_size =
     (let n_samples = length arr
      in if n_samples = 0 then Inl InvalidSplit
         else if test_size \<le> 0 \<or> 1 \<le> test_size then Inl InvalidSplit
         else
           let n_test = nat \<lceil>test_size * real n_samples\<rceil>;
               n_train = n_samples - n_test
           in if n_train = 0 then Inl InvalidSplit
              else
                let perm = permutation n_samples;
                    ind_test = take n_test perm;
                    ind_train = take n_train (drop n_test perm)
                in Inr (map (\<lambda>i. arr ! i) ind_train, map (\<lambda>i. arr ! i) ind_test))"

definition train_test_split ::
  "(int \<Rightarrow> nat \<Rightarrow> nat list) \<Rightarrow> 'a list \<Rightarrow> real \<Rightarrow> int \<Rightarrow> error + ('a list \<times> 'a list)" where
  "train_test_split rng arr test_size random_state =
     (case check_random_state rng random_state of
        Inl e \<Rightarrow> Inl e
      | Inr permutation \<Rightarrow> shuffle_split permutation arr test_size)"

text \<open>
  The loop over \<^verbatim>\<open>valid_users\<close>: the lists \<^verbatim>\<open>train_dfs\<close> and \<^verbatim>\<open>test_dfs\<close>; the first
  error ends the call. Every user is split with the same \<open>random_state\<close>.
\<close>

fun split_users ::
  "(int \<Rightarrow> nat \<Rightarrow> nat list) \<Rightarrow> rating_record list \<Rightarrow> real \<Rightarrow> int \<Rightarrow> int \<Rightarrow> int list
     \<Rightarrow> error + (rating_record list list \<times> rating_record list list)" where
  "split_users rng df_filtered test_size random_state min_ratings_per_user [] = Inr ([], [])"
| "split_users rng df_filtered test_size random_state min_ratings_per_user (u # us) =
     (let user_data = filter (\<lambda>r. user_id r = u) df_filtered
      in if min_ratings_per_user \<le> int (length user_data) then
           (case train_test_split rng user_data test_size random_state of
              Inl e \<Rightarrow> Inl e
            | Inr split \<Rightarrow>
                (case split_users rng df_filtered test_size random_state
                        min_ratings_per_user us of
                   Inl e \<Rightarrow> Inl e
                 | Inr rest \<Rightarrow> Inr (fst split # fst rest, snd split # snd rest)))
         else split_users rng df_filtered test_size random_state min_ratings_per_user us)"

definition split_train_test ::
  "(int \<Rightarrow> nat \<Rightarrow> nat list) \<Rightarrow> rating_record list \<Rightarrow> real \<Rightarrow> int \<Rightarrow> int
     \<Rightarrow> error + (rating_record list \<times> rating_record list)" where
  "split_train_test rng df test_size random_state min_ratings_per_user =
     (let valid_users =
            filter (\<lambda>u. min_ratings_per_user \<le> int (length (filter (\<lambda>r. user_id r = u) df)))
                   (sort (remdups (map user_id df)));
          df_filtered = filter (\<lambda>r. user_id r \<in> set valid_users) df
      in case split_users rng df_filtered test_size random_state min_ratings_per_user
                valid_users of
           Inl e \<Rightarrow> Inl e
         | Inr dfs \<Rightarrow>
             if fst dfs = [] then Inl NothingToConcatenate
             else Inr (concat (fst dfs), concat (snd dfs)))"

subsection \<open>Evaluation of the recommendations (evaluation.py)\<close>

text \<open>\<^verbatim>\<open>series.unique()\<close>: the distinct values in order of first appearance.\<close>

fun unique :: "'a list \<Rightarrow> 'a list" where
  "unique [] = []"
| "unique (x # xs) = x # filter (\<lambda>y. y \<noteq> x) (unique xs)"

text \<open>
  \<^verbatim>\<open>results\<close> maps each \<open>k\<close> to the three lists \<^verbatim>\<open>precision\<close>, \<^verbatim>\<open>recall\<close> and \<^verbatim>\<open>f1\<close>;
  only keys of \<^verbatim>\<open>k_values\<close> are ever read or written.
\<close>

type_synonym results = "int \<Rightarrow> real list \<times> real list \<times> real list"

definition append_metrics :: "int list \<Rightarrow> int fset \<Rightarrow> int \<Rightarrow> results \<Rightarrow> results" where
  "append_metrics recommended_items relevant_items k results =
     (let precision = precision_at_k recommended_items relevant_items k;
          recall = recall_at_k recommended_items relevant_items k;
          f1 = f1_score_at_k recommended_items relevant_items k
      in results(k := (fst (results k) @ [precision],
                       fst (snd (results k)) @ [recall],
                       snd (snd (results k)) @ [f1])))"

text \<open>
  The body of the \<^verbatim>\<open>try\<close> for one user, on the state \<^verbatim>\<open>(results, evaluated_users)\<close>:
  \<open>Inl\<close> is an exception raised inside it, \<open>Inr None\<close> a \<^verbatim>\<open>continue\<close>, \<open>Inr (Some st)\<close> the
  state when the body runs to its end. Every exception is raised before the state is
  touched.
\<close>

definition evaluate_user ::
  "rating_record list \<Rightarrow> rating_record list
     \<Rightarrow> (rating_record list \<Rightarrow> int \<Rightarrow> int \<Rightarrow> error + recommendation list)
     \<Rightarrow> int list \<Rightarrow> real \<Rightarrow> int \<Rightarrow> results \<times> nat \<Rightarrow> error + (results \<times> nat) option" where
  "evaluate_user train_df test_df recommend_func k_values relevance_threshold uid st =
     (let user_test = filter (\<lambda>r. user_id r = uid) test_df;
          relevant_items =
            fset_of_list (map product_id
              (filter (\<lambda>r. relevance_threshold \<le> rating r) user_test))
      in if fcard relevant_items = 0 then Inr None
         else if k_values = [] then Inl EmptyMax
         else
           let max_k = Max (set k_values)
           in case recommend_func train_df uid max_k of
                Inl e \<Rightarrow> Inl e
              | Inr recommendations \<Rightarrow>
                  if length recommendations = 0 then Inr None
                  else
                    let recommended_items = map rec_product_id recommendations
                    in Inr (Some (fold (append_metrics recommended_items relevant_items)
                                    k_values (fst st),
                                  Suc (snd st))))"

text \<open>One turn of the loop over \<^verbatim>\<open>test_users\<close>: \<^verbatim>\<open>except Exception: continue\<close>.\<close>

definition evaluate_step ::
  "rating_record list \<Rightarrow> rating_record list
     \<Rightarrow> (rating_record list \<Rightarrow> int \<Rightarrow> int \<Rightarrow> error + recommendation list)
     \<Rightarrow> int list \<Rightarrow> real \<Rightarrow> int \<Rightarrow> results \<times> nat \<Rightarrow> results \<times> nat" where
  "evaluate_step train_df test_df recommend_func k_values relevance_threshold uid st =
     (case evaluate_user train_df test_df recommend_func k_values relevance_threshold uid st of
        Inl e \<Rightarrow> st
      | Inr None \<Rightarrow> st
      | Inr (Some st') \<Rightarrow> st')"

record summary_row =
  avg_precision :: real
  avg_recall :: real
  avg_f1 :: real

definition summarize :: "results \<Rightarrow> int \<Rightarrow> (int \<rightharpoonup> summary_row) \<Rightarrow> (int \<rightharpoonup> summary_row)" where
  "summarize results k summary =
     (if fst (results k) \<noteq> [] then
        summary(k \<mapsto> \<lparr>avg_precision = mean (fst (results k)),
                      avg_recall = mean (fst (snd (results k))),
                      avg_f1 = mean (snd (snd (results k)))\<rparr>)
      else summary)"

text \<open>The returned \<^verbatim>\<open>summary\<close>, and the printed count of evaluated users.\<close>

definition evaluate_recommendations ::
  "rating_record list \<Rightarrow> rating_record list
     \<Rightarrow> (rating_record list \<Rightarrow> int \<Rightarrow> int \<Rightarrow> error + recommendation list)
     \<Rightarrow> int list \<Rightarrow> real \<Rightarrow> (int \<rightharpoonup> summary_row) \<times> nat" where
  "evaluate_recommendations train_df test_df recommend_func k_values relevance_threshold =
     (let test_users = unique (map user_id test_df);
          st = fold (evaluate_step train_df test_df recommend_func k_values relevance_threshold)
                 test_users (\<lambda>k. ([], [], []), 0)
      in (fold (summarize (fst st)) k_values Map.empty, snd st))"

subsection \<open>Evaluation of the rating predictions (evaluation.py)\<close>

text \<open>
  \<^verbatim>\<open>calculate_rmse\<close> and \<^verbatim>\<open>calculate_mae\<close> subtract two numpy arrays. The harness appends
  to \<^verbatim>\<open>actual_ratings\<close> and \<^verbatim>\<open>predicted_ratings\<close> in the same turn of its loop, so the
  two lists always have the same length; that is the only use here. On lists of
  different lengths numpy broadcasts or raises, which \<open>zip\<close> does not reproduce.
\<close>

definition calculate_rmse :: "real list \<Rightarrow> real list \<Rightarrow> real" where
  "calculate_rmse actual predicted =
     (let mse = mean (map (\<lambda>e. (fst e - snd e) * (fst e - snd e)) (zip actual predicted))
      in sqrt mse)"

definition calculate_mae :: "real list \<Rightarrow> real list \<Rightarrow> real" where
  "calculate_mae actual predicted =
     mean (map (\<lambda>e. \<bar>fst e - snd e\<bar>) (zip actual predicted))"

record prediction_metrics =
  rmse :: real
  mae :: real
  n_predictions :: nat

text \<open>One turn of the loop over the test rows: the bare \<^verbatim>\<open>except: continue\<close>.\<close>

definition predict_step ::
  "rating_record list \<Rightarrow> (rating_record list \<Rightarrow> int \<Rightarrow> int \<Rightarrow> error + real)
     \<Rightarrow> rating_record \<Rightarrow> real list \<times> real list \<Rightarrow> real list \<times> real list" where
  "predict_step train_df predict_func row acc =
     (case predict_func train_df (user_id row) (product_id row) of
        Inl e \<Rightarrow> acc
      | Inr predicted \<Rightarrow> (fst acc @ [rating row], snd acc @ [predicted]))"

text \<open>The result is the empty dictionary (\<open>None\<close>) when no prediction was made.\<close>

definition evaluate_rating_prediction ::
  "rating_record list \<Rightarrow> rating_record list
     \<Rightarrow> (rating_record list \<Rightarrow> int \<Rightarrow> int \<Rightarrow> error + real) \<Rightarrow> prediction_metrics option" where
  "evaluate_rating_prediction train_df test_df predict_func =
     (let acc = fold (predict_step train_df predict_func) test_df ([], []);
          actual_ratings = fst acc;
          predicted_ratings = snd acc
      in if length actual_ratings = 0 then None
         else Some \<lparr>rmse = calculate_rmse actual_ratings predicted_ratings,
                    mae = calculate_mae actual_ratings predicted_ratings,
                    n_predictions = length actual_ratings\<rparr>)"

subsection \<open>Vocabulary of the properties\<close>

definition descending :: "real list \<Rightarrow> bool" where
  "descending xs = sorted_wrt (\<lambda>a b. b \<le> a) xs"

text \<open>The order the result is said to have: score descending, equal scores by ascending product id.\<close>

definition by_score_then_product :: "recommendation list \<Rightarrow> bool" where
  "by_score_then_product rows =
     sorted_wrt (\<lambda>a b. score b < score a
                     \<or> (score a = score b \<and> rec_product_id a < rec_product_id b)) rows"

text \<open>The rows built from the final \<^verbatim>\<open>scores\<close> dictionary, whatever the estimate \<open>g\<close>.\<close>

definition scored_rows ::
  "(int \<times> real) list \<Rightarrow> int \<Rightarrow> (int \<times> real \<Rightarrow> real option) \<Rightarrow> recommendation list" where
  "scored_rows scores n g =
     map (\<lambda>e. \<lparr>rec_product_id = fst e, score = snd e, estimated_rating = g e\<rparr>)
         (slice_to (sort_key (\<lambda>e. - snd e) scores) n)"

text \<open>The products of \<^verbatim>\<open>get_popular_items\<close> that pass the count floor, with mean and count.\<close>

definition popular_stats ::
  "('a rating_record_scheme) list \<Rightarrow> int \<Rightarrow> (int \<times> real \<times> nat) list" where
  "popular_stats df min_ratings =
     filter (\<lambda>e. min_ratings \<le> int (snd (snd e)))
       (map (\<lambda>p. let g = map rating (filter (\<lambda>r. product_id r = p) df)
                 in (p, mean g, length g))
            (sort (remdups (map product_id df))))"

text \<open>A dictionary read with default 0.\<close>

definition lookup0 :: "(int \<times> real) list \<Rightarrow> int \<Rightarrow> real" where
  "lookup0 d k = (case map_of d k of None \<Rightarrow> 0 | Some v \<Rightarrow> v)"

text \<open>The values \<^verbatim>\<open>recommend_for_user\<close> pivots: raw ratings, or the normalised column.\<close>

definition rating_cells :: "rating_record list \<Rightarrow> bool \<Rightarrow> string \<Rightarrow> (int \<times> int \<times> real) list" where
  "rating_cells df use_normalized method =
     (if use_normalized then
        (case normalize_ratings_per_user df method of
           Inl e \<Rightarrow> []
         | Inr ndf \<Rightarrow> observed ndf normalized_rating)
      else observed df (\<lambda>r. Some (rating r)))"

text \<open>\<^verbatim>\<open>rated_items\<close>: the columns where the row of the user is positive.\<close>

definition rated_items_of :: "(int \<times> int \<times> real) list \<Rightarrow> int \<Rightarrow> int list" where
  "rated_items_of obs uid = filter (\<lambda>p. 0 < matrix_at obs uid p) (pivot_columns obs)"

text \<open>\<^verbatim>\<open>sim_df\<close> of the matrix built from the cells.\<close>

definition sim_of :: "(int \<times> int \<times> real) list \<Rightarrow> int \<Rightarrow> int \<Rightarrow> real" where
  "sim_of obs = cosine_similarity (pivot_index obs) (matrix_at obs)"

text \<open>\<^verbatim>\<open>(scores, score_weights)\<close> when both loops have run.\<close>

definition accumulators ::
  "(int \<times> int \<times> real) list \<Rightarrow> int \<Rightarrow> real \<Rightarrow> (int \<times> real) list \<times> (int \<times> real) list" where
  "accumulators obs uid min_similarity =
     fold (score_product (pivot_columns obs) (sim_of obs) (matrix_at obs uid) min_similarity)
          (rated_items_of obs uid) ([], [])"

text \<open>
  The entries of \<^verbatim>\<open>rated_items\<close> that add to the key \<open>other\<close>: different from it and
  similar enough.
\<close>

definition contributors :: "(int \<times> int \<times> real) list \<Rightarrow> int \<Rightarrow> real \<Rightarrow> int \<Rightarrow> int list" where
  "contributors obs uid min_similarity other =
     filter (\<lambda>item. other \<noteq> item \<and> min_similarity \<le> sim_of obs other item)
            (rated_items_of obs uid)"

text \<open>The sum of similarity times the cell of the user, over the contributors.\<close>

definition weighted_sum :: "(int \<times> int \<times> real) list \<Rightarrow> int \<Rightarrow> real \<Rightarrow> int \<Rightarrow> real" where
  "weighted_sum obs uid min_similarity other =
     sum_list (map (\<lambda>item. sim_of obs other item * matrix_at obs uid item)
                   (contributors obs uid min_similarity other))"

text \<open>The sum of the absolute similarities, over the contributors.\<close>

definition weight_sum :: "(int \<times> int \<times> real) list \<Rightarrow> int \<Rightarrow> real \<Rightarrow> int \<Rightarrow> real" where
  "weight_sum obs uid min_similarity other =
     sum_list (map (\<lambda>item. \<bar>sim_of obs other item\<bar>)
                   (contributors obs uid min_similarity other))"

text \<open>
  A key of the accumulators: a column the row of the user holds 0 at, with at least one
  contributor.
\<close>

definition candidate :: "(int \<times> int \<times> real) list \<Rightarrow> int \<Rightarrow> real \<Rightarrow> int \<Rightarrow> bool" where
  "candidate obs uid min_similarity other =
     (other \<in> set (pivot_columns obs) \<and> matrix_at obs uid other = 0
      \<and> contributors obs uid min_similarity other \<noteq> [])"

text \<open>The score after the division loop: the weighted average where the weight is positive.\<close>

definition final_score :: "(int \<times> int \<times> real) list \<Rightarrow> int \<Rightarrow> real \<Rightarrow> int \<Rightarrow> real" where
  "final_score obs uid min_similarity other =
     (if 0 < weight_sum obs uid min_similarity other
      then weighted_sum obs uid min_similarity other / weight_sum obs uid min_similarity other
      else weighted_sum obs uid min_similarity other)"

text \<open>Whether the inner loop body adds to key \<open>j\<close> at the entry \<open>e\<close>.\<close>

definition step_gain :: "(int \<Rightarrow> real) \<Rightarrow> real \<Rightarrow> int \<Rightarrow> int \<times> real \<Rightarrow> bool" where
  "step_gain ur ms j e = (j = fst e \<and> ur (fst e) = 0 \<and> ms \<le> snd e)"

text \<open>Whether the outer loop body adds to key \<open>j\<close> at the entry \<open>p\<close> of \<^verbatim>\<open>rated_items\<close>.\<close>

definition gains :: "int list \<Rightarrow> (int \<Rightarrow> int \<Rightarrow> real) \<Rightarrow> (int \<Rightarrow> real) \<Rightarrow> real \<Rightarrow> int \<Rightarrow> int \<Rightarrow> bool" where
  "gains cols sim ur ms j p = (j \<in> set cols \<and> j \<noteq> p \<and> ur j = 0 \<and> ms \<le> sim j p)"

text \<open>The ratings of product \<open>p\<close>: its group in \<^verbatim>\<open>df.groupby('product_id')['rating']\<close>.\<close>

definition product_ratings :: "('a rating_record_scheme) list \<Rightarrow> int \<Rightarrow> real list" where
  "product_ratings df p = map rating (filter (\<lambda>r. product_id r = p) df)"

text \<open>A product of the table with at least \<open>min_ratings\<close> ratings.\<close>

definition qualifies :: "('a rating_record_scheme) list \<Rightarrow> int \<Rightarrow> int \<Rightarrow> bool" where
  "qualifies df min_ratings p =
     (p \<in> product_id ` set df \<and> min_ratings \<le> int (length (product_ratings df p)))"

text \<open>The estimate before clipping, from the score, for the ratings \<open>g\<close> of the target user.\<close>

definition estimate_of :: "string option \<Rightarrow> real list \<Rightarrow> real \<Rightarrow> real option" where
  "estimate_of normalization g s =
     (case normalization of
        None \<Rightarrow> Some s
      | Some method \<Rightarrow>
          if method = ''mean_center'' then Some (s + mean g)
          else if method = ''z_score'' then
            (case std g of None \<Rightarrow> None | Some d \<Rightarrow> Some ((s * d) + mean g))
          else Some s)"

text \<open>The rows of user \<open>u\<close> in a frame.\<close>

definition rows_of :: "int \<Rightarrow> ('a rating_record_scheme) list \<Rightarrow> ('a rating_record_scheme) list" where
  "rows_of u df = filter (\<lambda>r. user_id r = u) df"

text \<open>The pairs (actual rating, prediction) of the test rows whose prediction did not raise.\<close>

definition successes ::
  "rating_record list \<Rightarrow> (rating_record list \<Rightarrow> int \<Rightarrow> int \<Rightarrow> error + real)
     \<Rightarrow> rating_record list \<Rightarrow> (real \<times> real) list" where
  "successes train_df predict_func test_df =
     concat (map (\<lambda>row. case predict_func train_df (user_id row) (product_id row) of
                          Inl e \<Rightarrow> []
                        | Inr predicted \<Rightarrow> [(rating row, predicted)]) test_df)"

text \<open>
  The same loops, read off the rating table. The ratings a user gave a product (one, for
  a table without duplicates), whether there is one, and their mean, which is what
  \<^verbatim>\<open>pivot_table\<close> puts in the cell.
\<close>

definition ratings_of :: "('a rating_record_scheme) list \<Rightarrow> int \<Rightarrow> int \<Rightarrow> real list" where
  "ratings_of df uid p =
     map rating (filter (\<lambda>r. user_id r = uid \<and> product_id r = p) df)"

definition rated_by :: "('a rating_record_scheme) list \<Rightarrow> int \<Rightarrow> int \<Rightarrow> bool" where
  "rated_by df uid p = (ratings_of df uid p \<noteq> [])"

definition user_rating :: "('a rating_record_scheme) list \<Rightarrow> int \<Rightarrow> int \<Rightarrow> real" where
  "user_rating df uid p = mean (ratings_of df uid p)"

text \<open>The similarity of two products, from the matrix of the raw ratings.\<close>

definition raw_similarity :: "rating_record list \<Rightarrow> int \<Rightarrow> int \<Rightarrow> real" where
  "raw_similarity df = sim_of (observed df (\<lambda>r. Some (rating r)))"

text \<open>The products the user rated, in the order of the matrix columns.\<close>

definition rated_items_by :: "rating_record list \<Rightarrow> int \<Rightarrow> int list" where
  "rated_items_by df uid = filter (rated_by df uid) (sort (remdups (map product_id df)))"

text \<open>
  The rated items that count for \<open>other\<close>: those, other than \<open>other\<close>, whose similarity to it
  is at least \<open>min_similarity\<close>.
\<close>

definition similar_rated :: "rating_record list \<Rightarrow> int \<Rightarrow> real \<Rightarrow> int \<Rightarrow> int list" where
  "similar_rated df uid min_similarity other =
     filter (\<lambda>item. other \<noteq> item \<and> min_similarity \<le> raw_similarity df other item)
            (rated_items_by df uid)"

text \<open>
  A candidate: a product of the table that the user has not rated and for which at least
  one rated item counts.
\<close>

definition unrated_candidate :: "rating_record list \<Rightarrow> int \<Rightarrow> real \<Rightarrow> int \<Rightarrow> bool" where
  "unrated_candidate df uid min_similarity other =
     (other \<in> set (map product_id df) \<and> \<not> rated_by df uid other
      \<and> similar_rated df uid min_similarity other \<noteq> [])"

text \<open>\<open>\<Sum> similarity \<times> user_rating_of_item\<close> and \<open>\<Sum> |similarity|\<close> over those items.\<close>

definition accumulated_score :: "rating_record list \<Rightarrow> int \<Rightarrow> real \<Rightarrow> int \<Rightarrow> real" where
  "accumulated_score df uid min_similarity other =
     sum_list (map (\<lambda>item. raw_similarity df other item * user_rating df uid item)
                   (similar_rated df uid min_similarity other))"

definition accumulated_weight :: "rating_record list \<Rightarrow> int \<Rightarrow> real \<Rightarrow> int \<Rightarrow> real" where
  "accumulated_weight df uid min_similarity other =
     sum_list (map (\<lambda>item. \<bar>raw_similarity df other item\<bar>)
                   (similar_rated df uid min_similarity other))"

subsection \<open>Example tables\<close>

definition mk :: "int \<Rightarrow> int \<Rightarrow> real \<Rightarrow> rating_record" where
  "mk u p r = \<lparr>user_id = u, product_id = p, rating = r, timestamp = 0\<rparr>"

definition tied_table :: "rating_record list" where
  "tied_table = [mk 1 10 4, mk 1 11 4, mk 2 10 3, mk 2 30 2, mk 3 11 3, mk 3 20 2]"

text \<open>User 1 rated product 11 with exactly the mean of their three ratings.\<close>

definition centred_table :: "rating_record list" where
  "centred_table = [mk 1 10 4.5, mk 1 11 3, mk 1 12 1.5, mk 2 10 5, mk 2 11 3.5, mk 2 12 0.5]"

text \<open>A table with a single rating.\<close>

definition single_rating_table :: "rating_record list" where
  "single_rating_table = [mk 1 10 4]"

text \<open>Every user of this table gave one rating value only; product 10 has five ratings.\<close>

definition constant_table :: "rating_record list" where
  "constant_table = [mk 1 10 4, mk 1 11 4, mk 2 10 5, mk 3 10 3, mk 4 10 4, mk 5 10 4]"

text \<open>A permutation source that reverses the positions, whatever the seed.\<close>

definition reversing :: "int \<Rightarrow> nat \<Rightarrow> nat list" where
  "reversing seed k = rev [0..<k]"

text \<open>User 1 has five ratings and user 2 has two.\<close>

definition split_table :: "rating_record list" where
  "split_table = [mk 1 10 5, mk 2 10 4, mk 1 11 4, mk 1 12 3, mk 2 11 2, mk 1 13 2, mk 1 14 1]"

text \<open>A recommender and a predictor that raise for user 1, and a test table of two users.\<close>

definition failing_recommender ::
  "rating_record list \<Rightarrow> int \<Rightarrow> int \<Rightarrow> error + recommendation list" where
  "failing_recommender df uid n =
     (if uid = 1 then Inl Failure
      else Inr [\<lparr>rec_product_id = 10, score = 1, estimated_rating = Some 1\<rparr>])"

definition failing_predictor :: "rating_record list \<Rightarrow> int \<Rightarrow> int \<Rightarrow> error + real" where
  "failing_predictor df uid product = (if uid = 1 then Inl Failure else Inr 4)"

definition harness_table :: "rating_record list" where
  "harness_table = [mk 1 10 5, mk 2 10 5]"

section \<open>Properties\<close>

subsection \<open>Ranking metrics\<close>

lemma slice_to_nonneg: "0 \<le> k \<Longrightarrow> slice_to xs k = take (nat k) xs"
  by (simp add: slice_to_def)

lemma length_filter_take_le: "length (filter P (take n xs)) \<le> n"
proof -
  have "length (filter P (take n xs)) \<le> length (take n xs)"
    by (rule length_filter_le)
  also have "\<dots> \<le> n" by simp
  finally show ?thesis .
qed

lemma length_filter_mem_distinct:
  assumes "distinct xs"
  shows "length (filter (\<lambda>x. x |\<in>| A) xs) = card (set xs \<inter> fset A)"
proof -
  have "distinct (filter (\<lambda>x. x |\<in>| A) xs)"
    using assms by simp
  then have "card (set (filter (\<lambda>x. x |\<in>| A) xs)) = length (filter (\<lambda>x. x |\<in>| A) xs)"
    by (rule distinct_card)
  moreover have "set (filter (\<lambda>x. x |\<in>| A) xs) = set xs \<inter> fset A"
    by auto
  ultimately show ?thesis by metis
qed

lemma precision_at_k_range:
  assumes "0 \<le> k"
  shows "0 \<le> precision_at_k xs A k" and "precision_at_k xs A k \<le> 1"
proof -
  show "0 \<le> precision_at_k xs A k"
    using assms by (simp add: precision_at_k_def Let_def)
  show "precision_at_k xs A k \<le> 1"
  proof (cases "k = 0")
    case True
    then show ?thesis by (simp add: precision_at_k_def)
  next
    case False
    with assms have pos: "0 < k" by simp
    have "length (filter (\<lambda>item. item |\<in>| A) (take (nat k) xs)) \<le> nat k"
      by (rule length_filter_take_le)
    then have "real (length (filter (\<lambda>item. item |\<in>| A) (take (nat k) xs))) \<le> real_of_int k"
      using pos by linarith
    then show ?thesis
      using pos by (simp add: precision_at_k_def Let_def slice_to_nonneg)
  qed
qed

lemma recall_at_k_distinct:
  assumes "0 \<le> k" and "distinct (slice_to xs k)"
  shows "0 \<le> recall_at_k xs A k" and "recall_at_k xs A k \<le> 1"
    and "A \<noteq> {||} \<Longrightarrow>
         recall_at_k xs A k = real (card (set (slice_to xs k) \<inter> fset A)) / real (fcard A)"
proof -
  let ?hits = "length (filter (\<lambda>item. item |\<in>| A) (slice_to xs k))"
  have hits: "?hits = card (set (slice_to xs k) \<inter> fset A)"
    using assms(2) by (rule length_filter_mem_distinct)
  have "card (set (slice_to xs k) \<inter> fset A) \<le> card (fset A)"
    by (rule card_mono) auto
  then have le: "?hits \<le> fcard A"
    using hits by (simp add: fcard.rep_eq)
  show "0 \<le> recall_at_k xs A k"
    by (simp add: recall_at_k_def Let_def)
  show "recall_at_k xs A k \<le> 1"
  proof (cases "fcard A = 0")
    case True
    then show ?thesis by (simp add: recall_at_k_def)
  next
    case False
    then have "0 < fcard A" by arith
    then have "0 < real (fcard A)" by (rule iffD2 [OF of_nat_0_less_iff])
    moreover have "real ?hits \<le> real (fcard A)"
      using le by (rule iffD2 [OF of_nat_le_iff])
    ultimately have "real ?hits / real (fcard A) \<le> 1"
      by (simp only: divide_le_eq_1_pos)
    moreover have "recall_at_k xs A k = real ?hits / real (fcard A)"
      using False by (simp add: recall_at_k_def Let_def)
    ultimately show ?thesis
      by (simp only:)
  qed
  show "recall_at_k xs A k = real (card (set (slice_to xs k) \<inter> fset A)) / real (fcard A)"
    if "A \<noteq> {||}"
    using that hits by (simp add: recall_at_k_def Let_def)
qed

text \<open>
  What the two metrics do satisfy. For \<open>k \<ge> 0\<close>, \<open>precision_at_k\<close> lies in \<open>[0,1]\<close> for every
  list and every set; \<open>precision_at_k x y 0 = 0\<close>; \<open>recall_at_k x {} k = 0\<close>; \<open>recall_at_k\<close> is
  never negative and is the number of top-k positions holding a relevant item divided by
  the number of relevant items. When the top-k prefix holds no item twice, that count is
  \<open>|top-k \<inter> relevant|\<close> and \<open>recall_at_k\<close> is at most 1.
\<close>

lemma metrics_at_k_range:
  assumes "0 \<le> k"
  shows "0 \<le> precision_at_k xs A k \<and> precision_at_k xs A k \<le> 1
       \<and> precision_at_k xs A 0 = 0
       \<and> recall_at_k xs {||} k = 0
       \<and> 0 \<le> recall_at_k xs A k
       \<and> (A \<noteq> {||} \<longrightarrow> recall_at_k xs A k =
             real (length (filter (\<lambda>item. item |\<in>| A) (take (nat k) xs))) / real (fcard A))
       \<and> (distinct (take (nat k) xs) \<longrightarrow>
             recall_at_k xs A k \<le> 1
           \<and> (A \<noteq> {||} \<longrightarrow> recall_at_k xs A k =
                 real (card (set (take (nat k) xs) \<inter> fset A)) / real (fcard A)))"
proof -
  have s: "slice_to xs k = take (nat k) xs"
    using assms by (rule slice_to_nonneg)
  have p: "0 \<le> precision_at_k xs A k \<and> precision_at_k xs A k \<le> 1"
    using precision_at_k_range [OF assms] by simp
  have p0: "precision_at_k xs A 0 = 0"
    by (simp add: precision_at_k_def)
  have r0: "recall_at_k xs {||} k = 0"
    by (simp add: recall_at_k_def)
  have rn: "0 \<le> recall_at_k xs A k"
    by (simp add: recall_at_k_def Let_def)
  have rc: "A \<noteq> {||} \<longrightarrow> recall_at_k xs A k =
      real (length (filter (\<lambda>item. item |\<in>| A) (take (nat k) xs))) / real (fcard A)"
    by (simp add: recall_at_k_def Let_def s)
  have rd: "distinct (take (nat k) xs) \<longrightarrow>
             recall_at_k xs A k \<le> 1
           \<and> (A \<noteq> {||} \<longrightarrow> recall_at_k xs A k =
                 real (card (set (take (nat k) xs) \<inter> fset A)) / real (fcard A))"
    using recall_at_k_distinct(2,3) [OF assms, of xs A] by (simp add: s)
  from p p0 r0 rn rc rd show ?thesis by blast
qed

lemma metrics_at_k_range_example:
  "precision_at_k [10, 20, 30] {|20, 40|} 2 = 1 / 2
   \<and> recall_at_k [10, 20, 30] {|20, 40|} 2 = 1 / 2
   \<and> distinct (take (nat 2) [10, 20, 30 :: int])
   \<and> recall_at_k [10, 20, 30] {|20, 40|} 2 \<le> 1"
proof -
  have k: "(0::int) \<le> 2" by simp
  have d: "distinct (take (nat 2) [10, 20, 30 :: int])"
    by (simp add: numeral_2_eq_2)
  have c: "fcard {|20, 40 :: int|} = 2"
    by (simp add: fcard_finsert_if)
  have e: "precision_at_k [10, 20, 30] {|20, 40|} 2 = 1 / 2
         \<and> recall_at_k [10, 20, 30] {|20, 40|} 2 = 1 / 2"
    by (simp add: precision_at_k_def recall_at_k_def slice_to_def c numeral_2_eq_2)
  from metrics_at_k_range [OF k, of "[10, 20, 30]" "{|20, 40|}"] d e show ?thesis
    by simp
qed

text \<open>
  C6, at a failing input. The claim (and the docstring of \<^verbatim>\<open>recall_at_k\<close>, ``Recall@K value
  (0-1)'') has \<open>recall_at_k\<close> in \<open>[0,1]\<close> and equal to \<open>|top-k \<inter> relevant| / |relevant|\<close>. The
  function counts the positions of the top-k list that hold a relevant item, not the
  distinct items: for the list \<open>[1, 1]\<close>, the relevant set \<open>{1}\<close> and \<open>k = 2\<close> it returns 2,
  where \<open>|top-k \<inter> relevant| / |relevant|\<close> is 1.
\<close>

theorem recall_at_k_above_one:
  "recall_at_k [1, 1] {|1|} 2 = 2
   \<and> \<not> recall_at_k [1, 1] {|1|} 2 \<le> 1
   \<and> real (card (set (slice_to [1, 1 :: int] 2) \<inter> fset {|1|})) / real (fcard {|1 :: int|}) = 1"
proof -
  have c: "fcard {|1 :: int|} = 1"
    by (simp add: fcard_finsert_if)
  have a: "recall_at_k [1, 1] {|1|} 2 = 2"
    by (simp add: recall_at_k_def slice_to_def c numeral_2_eq_2)
  then have n: "\<not> recall_at_k [1, 1] {|1|} 2 \<le> 1"
    by simp
  have s: "slice_to [1, 1 :: int] 2 = [1, 1]"
    by (simp add: slice_to_def numeral_2_eq_2)
  have b: "real (card (set (slice_to [1, 1 :: int] 2) \<inter> fset {|1|})) / real (fcard {|1 :: int|}) = 1"
    unfolding s c by simp
  from a n b show ?thesis
    by (intro conjI)
qed

subsection \<open>Errors of the scorer\<close>

lemma normalize_not_unknown:
  "normalize_ratings_per_user df method \<noteq> Inl UnknownUser"
  by (simp add: normalize_ratings_per_user_def)

lemma recommend_scored_not_unknown:
  "recommend_scored df col uid n ms nm \<noteq> Inl UnknownUser"
  by (simp add: recommend_scored_def Let_def split: option.split list.split)

text \<open>
  C4. \<open>recommend_for_user\<close> fails with \<open>UnknownUser\<close> exactly when the user id occurs in
  no row of the rating table; for a user of the table no path gives that error.
\<close>

theorem unknown_user_iff:
  "recommend_for_user df uid n ms un meth mci = Inl UnknownUser \<longleftrightarrow> uid \<notin> user_id ` set df"
proof (cases "uid \<in> user_id ` set df")
  case False
  then show ?thesis by (simp add: recommend_for_user_def)
next
  case True
  have "recommend_for_user df uid n ms un meth mci \<noteq> Inl UnknownUser"
  proof (cases un)
    case False
    with True show ?thesis
      by (simp add: recommend_for_user_def recommend_scored_not_unknown)
  next
    case un: True
    show ?thesis
    proof (cases "normalize_ratings_per_user df meth")
      case (Inl e)
      with normalize_not_unknown [of df meth] have "e \<noteq> UnknownUser" by auto
      with True un Inl show ?thesis by (simp add: recommend_for_user_def)
    next
      case (Inr ndf)
      with True un show ?thesis
        by (simp add: recommend_for_user_def recommend_scored_not_unknown)
    qed
  qed
  with True show ?thesis by simp
qed

theorem unknown_user_iff_witness:
  "recommend_for_user tied_table 7 10 0.1 False ''mean_center'' 2 = Inl UnknownUser
   \<and> 7 \<notin> user_id ` set tied_table
   \<and> recommend_for_user tied_table 1 10 0.1 True ''z_score'' 2 \<noteq> Inl UnknownUser
   \<and> 1 \<in> user_id ` set tied_table"
proof -
  have a: "7 \<notin> user_id ` set tied_table"
    by (simp add: tied_table_def mk_def)
  have b: "1 \<in> user_id ` set tied_table"
    by (simp add: tied_table_def mk_def)
  from a b unknown_user_iff [of tied_table 7 10 "0.1" False "''mean_center''" 2]
    unknown_user_iff [of tied_table 1 10 "0.1" True "''z_score''" 2]
  show ?thesis by simp
qed

subsection \<open>Dictionaries, sorting and slicing\<close>

lemma keys_setdefault:
  "map fst (setdefault k v d) = (if k \<in> set (map fst d) then map fst d else map fst d @ [k])"
  by (induction d) auto

lemma keys_dict_add: "map fst (dict_add k x d) = map fst d"
  by (induction d) auto

lemma distinct_keys_setdefault:
  "distinct (map fst d) \<Longrightarrow> distinct (map fst (setdefault k v d))"
  by (simp add: keys_setdefault)

lemma score_step_distinct:
  assumes "distinct (map fst (fst acc))"
  shows "distinct (map fst (fst (score_step ur ms r e acc)))"
  using assms by (simp add: score_step_def Let_def keys_dict_add distinct_keys_setdefault)

lemma fold_score_step_distinct:
  "distinct (map fst (fst acc)) \<Longrightarrow>
   distinct (map fst (fst (fold (score_step ur ms r) es acc)))"
  by (induction es arbitrary: acc) (simp_all add: score_step_distinct)

lemma score_product_distinct:
  "distinct (map fst (fst acc)) \<Longrightarrow>
   distinct (map fst (fst (score_product cols sim ur ms p acc)))"
  by (simp add: score_product_def Let_def fold_score_step_distinct)

lemma fold_score_product_distinct:
  "distinct (map fst (fst acc)) \<Longrightarrow>
   distinct (map fst (fst (fold (score_product cols sim ur ms) ps acc)))"
  by (induction ps arbitrary: acc) (simp_all add: score_product_distinct)

lemma keys_normalize_scores: "map fst (normalize_scores scores ws) = map fst scores"
  by (simp add: normalize_scores_def split: option.split)

lemma slice_to_is_take: "\<exists>m. slice_to xs k = take m xs"
  by (auto simp: slice_to_def)

lemma length_slice_to: "0 \<le> k \<Longrightarrow> length (slice_to xs k) \<le> nat k"
  by (simp add: slice_to_def)

lemma distinct_keys_sort_key:
  "distinct (map g xs) \<Longrightarrow> distinct (map g (sort_key f xs))"
proof -
  assume d: "distinct (map g xs)"
  have "mset (map g (sort_key f xs)) = mset (map g xs)" by simp
  then show ?thesis using d by (metis mset_eq_imp_distinct_iff)
qed

lemma distinct_keys_slice_to:
  "distinct (map g xs) \<Longrightarrow> distinct (map g (slice_to xs k))"
proof -
  assume d: "distinct (map g xs)"
  obtain m where "slice_to xs k = take m xs" using slice_to_is_take by blast
  then show ?thesis using d by (simp add: take_map [symmetric] distinct_take)
qed

lemma descending_neg: "sorted (map (\<lambda>e. - f e) xs) \<Longrightarrow> descending (map f xs)"
  by (induction xs) (auto simp: descending_def)

lemma descending_take: "descending xs \<Longrightarrow> descending (take m xs)"
  by (simp add: descending_def sorted_wrt_take)

lemma descending_sorted_slice:
  "descending (map f (slice_to (sort_key (\<lambda>e. - f e) xs) k))"
proof -
  obtain m where m: "slice_to (sort_key (\<lambda>e. - f e) xs) k = take m (sort_key (\<lambda>e. - f e) xs)"
    using slice_to_is_take by blast
  have "descending (map f (sort_key (\<lambda>e. - f e) xs))"
    by (rule descending_neg) simp
  then have "descending (take m (map f (sort_key (\<lambda>e. - f e) xs)))"
    by (rule descending_take)
  then show ?thesis by (simp add: m take_map)
qed

subsection \<open>Shape of the result\<close>

lemma recommend_scored_cases:
  assumes "recommend_scored df col uid n ms nm = Inr rows"
  shows "rows = get_popular_items df n 5
       \<or> (\<exists>scores g. distinct (map fst scores) \<and> rows = scored_rows scores n g)"
proof -
  let ?obs = "observed df col"
  let ?acc = "fold (score_product (pivot_columns ?obs)
                 (cosine_similarity (pivot_index ?obs) (matrix_at ?obs)) (matrix_at ?obs uid) ms)
                 (filter (\<lambda>p. 0 < matrix_at ?obs uid p) (pivot_columns ?obs)) ([], [])"
  let ?scores = "normalize_scores (fst ?acc) (snd ?acc)"
  have d: "distinct (map fst ?scores)"
    by (simp add: keys_normalize_scores fold_score_product_distinct)
  have e: "scored_rows [] n g = []" for g
    by (simp add: scored_rows_def slice_to_def)
  show ?thesis
  proof (cases "filter (\<lambda>p. 0 < matrix_at ?obs uid p) (pivot_columns ?obs) = []")
    case True
    with assms show ?thesis
      by (simp add: recommend_scored_def Let_def split: if_splits)
  next
    case False
    show ?thesis
    proof (cases "?scores = []")
      case True
      with assms False have "rows = []"
        by (simp add: recommend_scored_def Let_def split: if_splits)
      with e have "distinct (map fst ([] :: (int \<times> real) list)) \<and> rows = scored_rows [] n (\<lambda>e. None)"
        by simp
      then show ?thesis by blast
    next
      case ne: False
      from assms False ne have "\<exists>g. rows = scored_rows ?scores n g"
        by (auto simp: recommend_scored_def Let_def scored_rows_def
                 split: if_splits option.splits list.splits)
      with d show ?thesis by blast
    qed
  qed
qed

lemma scored_rows_props:
  assumes "distinct (map fst scores)"
  shows "distinct (map rec_product_id (scored_rows scores n g))"
    and "descending (map score (scored_rows scores n g))"
    and "0 \<le> n \<Longrightarrow> length (scored_rows scores n g) \<le> nat n"
proof -
  have "distinct (map fst (slice_to (sort_key (\<lambda>e. - snd e) scores) n))"
    using assms by (intro distinct_keys_slice_to distinct_keys_sort_key)
  then show "distinct (map rec_product_id (scored_rows scores n g))"
    by (simp add: scored_rows_def comp_def)
  have "descending (map snd (slice_to (sort_key (\<lambda>e. - snd e) scores) n))"
    by (rule descending_sorted_slice)
  then show "descending (map score (scored_rows scores n g))"
    by (simp add: scored_rows_def comp_def)
  show "length (scored_rows scores n g) \<le> nat n" if "0 \<le> n"
    using that by (simp add: scored_rows_def length_slice_to)
qed

lemma get_popular_items_eq:
  "get_popular_items df n m =
     map (\<lambda>e. \<lparr>rec_product_id = fst e, score = fst (snd e),
                    estimated_rating = Some (fst (snd e))\<rparr>)
       (slice_to (sort_key (\<lambda>e. - fst (snd e)) (popular_stats df m)) n)"
  by (simp add: get_popular_items_def popular_stats_def Let_def)

lemma distinct_popular_stats: "distinct (map fst (popular_stats df m))"
proof -
  have "distinct (map fst (map (\<lambda>p. let g = map rating (filter (\<lambda>r. product_id r = p) df)
                 in (p, mean g, length g)) (sort (remdups (map product_id df)))))"
    by (simp add: comp_def Let_def)
  then show ?thesis
    unfolding popular_stats_def by (rule distinct_map_filter)
qed

lemma get_popular_items_props:
  shows "distinct (map rec_product_id (get_popular_items df n m))"
    and "descending (map score (get_popular_items df n m))"
    and "0 \<le> n \<Longrightarrow> length (get_popular_items df n m) \<le> nat n"
proof -
  have "distinct (map fst (slice_to (sort_key (\<lambda>e. - fst (snd e)) (popular_stats df m)) n))"
    by (intro distinct_keys_slice_to distinct_keys_sort_key distinct_popular_stats)
  then show "distinct (map rec_product_id (get_popular_items df n m))"
    by (simp add: get_popular_items_eq comp_def)
  have "descending (map (\<lambda>e. fst (snd e)) (slice_to (sort_key (\<lambda>e. - fst (snd e)) (popular_stats df m)) n))"
    by (rule descending_sorted_slice)
  then show "descending (map score (get_popular_items df n m))"
    by (simp add: get_popular_items_eq comp_def)
  show "length (get_popular_items df n m) \<le> nat n" if "0 \<le> n"
    using that by (simp add: get_popular_items_eq length_slice_to)
qed

lemma recommend_for_user_Inr:
  assumes "recommend_for_user df uid n ms un meth mci = Inr rows"
  shows "(\<exists>ndf. normalize_ratings_per_user df meth = Inr ndf \<and> un \<and>
            recommend_scored ndf normalized_rating uid n ms (Some meth) = Inr rows)
       \<or> (\<not> un \<and> recommend_scored df (\<lambda>r. Some (rating r)) uid n ms None = Inr rows)"
  using assms by (auto simp: recommend_for_user_def split: if_splits sum.splits)

lemma recommend_scored_ordered:
  assumes "recommend_scored d col uid n ms nm = Inr rows"
  shows "distinct (map rec_product_id rows) \<and> descending (map score rows)
       \<and> (0 \<le> n \<longrightarrow> length rows \<le> nat n)"
  using recommend_scored_cases [OF assms] scored_rows_props get_popular_items_props
  by (metis (no_types, lifting))

text \<open>
  C7 (as amended). The rows returned by \<open>recommend_for_user\<close> have pairwise different
  product ids and are sorted by score descending; for \<open>n \<ge> 0\<close> there are at most \<open>n\<close> of
  them. Nothing orders rows of equal score by product id.
\<close>

theorem recommendation_result_ordered:
  assumes "recommend_for_user df uid n ms un meth mci = Inr rows"
  shows "distinct (map rec_product_id rows) \<and> descending (map score rows)
       \<and> (0 \<le> n \<longrightarrow> length rows \<le> nat n)"
proof -
  from recommend_for_user_Inr [OF assms] consider
      ndf :: "normalized_record list" where "recommend_scored ndf normalized_rating uid n ms (Some meth) = Inr rows"
    | "recommend_scored df (\<lambda>r. Some (rating r)) uid n ms None = Inr rows"
    by blast
  then show ?thesis
  proof cases
    case 1
    then show ?thesis by (rule recommend_scored_ordered)
  next
    case 2
    then show ?thesis by (rule recommend_scored_ordered)
  qed
qed


lemma tied_table_result:
  "recommend_for_user tied_table 1 10 0.1 False ''mean_center'' 2 =
     Inr [\<lparr>rec_product_id = 30, score = 4, estimated_rating = Some 4\<rparr>,
          \<lparr>rec_product_id = 20, score = 4, estimated_rating = Some 4\<rparr>]"
  by (simp add: recommend_for_user_def tied_table_def mk_def recommend_scored_def
      observed_def pivot_index_def pivot_columns_def Let_def matrix_at_def mean_def
      cosine_similarity_def item_vector_def l2_normalize_def score_product_def
      score_step_def normalize_scores_def clip_def slice_to_def)

theorem recommendation_result_ordered_witness:
  "recommend_for_user tied_table 1 10 0.1 False ''mean_center'' 2 =
     Inr [\<lparr>rec_product_id = 30, score = 4, estimated_rating = Some 4\<rparr>,
          \<lparr>rec_product_id = 20, score = 4, estimated_rating = Some 4\<rparr>]
   \<and> distinct (map rec_product_id
        [\<lparr>rec_product_id = 30, score = 4, estimated_rating = Some 4\<rparr>,
         \<lparr>rec_product_id = 20, score = 4, estimated_rating = Some 4\<rparr>])
   \<and> descending (map score
        [\<lparr>rec_product_id = 30, score = 4, estimated_rating = Some 4\<rparr>,
         \<lparr>rec_product_id = 20, score = 4, estimated_rating = Some 4\<rparr>])
   \<and> length [\<lparr>rec_product_id = 30, score = 4, estimated_rating = Some 4\<rparr>,
             \<lparr>rec_product_id = 20, score = 4, estimated_rating = Some (4::real)\<rparr>] \<le> nat 10"
  using recommendation_result_ordered [OF tied_table_result] tied_table_result by simp

text \<open>
  User 1 rated products 10 and 11 with 4. Product 30 enters the dictionary while product
  10 is processed and product 20 while product 11 is; both score 4, and the row of
  product 30 comes first.
\<close>

theorem ties_not_by_product_id:
  "recommend_for_user tied_table 1 10 0.1 False ''mean_center'' 2 =
     Inr [\<lparr>rec_product_id = 30, score = 4, estimated_rating = Some 4\<rparr>,
          \<lparr>rec_product_id = 20, score = 4, estimated_rating = Some 4\<rparr>]
   \<and> \<not> by_score_then_product
        [\<lparr>rec_product_id = 30, score = 4, estimated_rating = Some 4\<rparr>,
         \<lparr>rec_product_id = 20, score = 4, estimated_rating = Some 4\<rparr>]"
  using tied_table_result by (simp add: by_score_then_product_def)

subsection \<open>The accumulators of the scoring loops\<close>

lemma lookup0_add_setdefault:
  "lookup0 (dict_add k x (setdefault k 0 d)) j = lookup0 d j + (if j = k then x else 0)"
  by (induction d) (auto simp: lookup0_def)

lemma keys_add_setdefault:
  "fst ` set (dict_add k x (setdefault k v d)) = insert k (fst ` set d)"
  by (induction d) auto

lemma score_step_lookup:
  "lookup0 (fst (score_step ur ms r e acc)) j =
     lookup0 (fst acc) j + (if step_gain ur ms j e then snd e * r else 0)"
  "lookup0 (snd (score_step ur ms r e acc)) j =
     lookup0 (snd acc) j + (if step_gain ur ms j e then \<bar>snd e\<bar> else 0)"
  by (simp_all add: score_step_def Let_def lookup0_add_setdefault step_gain_def)

lemma score_step_keys:
  "fst ` set (fst (score_step ur ms r e acc)) =
     fst ` set (fst acc) \<union> {j. step_gain ur ms j e}"
  "fst ` set (snd (score_step ur ms r e acc)) =
     fst ` set (snd acc) \<union> {j. step_gain ur ms j e}"
  by (auto simp: score_step_def Let_def keys_add_setdefault step_gain_def)

lemma fold_score_step_lookup:
  "lookup0 (fst (fold (score_step ur ms r) es acc)) j =
     lookup0 (fst acc) j + sum_list (map (\<lambda>e. if step_gain ur ms j e then snd e * r else 0) es)"
  "lookup0 (snd (fold (score_step ur ms r) es acc)) j =
     lookup0 (snd acc) j + sum_list (map (\<lambda>e. if step_gain ur ms j e then \<bar>snd e\<bar> else 0) es)"
  by (induction es arbitrary: acc) (simp_all add: score_step_lookup)

lemma fold_score_step_keys:
  "fst ` set (fst (fold (score_step ur ms r) es acc)) =
     fst ` set (fst acc) \<union> {j. \<exists>e \<in> set es. step_gain ur ms j e}"
  "fst ` set (snd (fold (score_step ur ms r) es acc)) =
     fst ` set (snd acc) \<union> {j. \<exists>e \<in> set es. step_gain ur ms j e}"
  by (induction es arbitrary: acc) (auto simp: score_step_keys)

lemma sum_list_single:
  "distinct xs \<Longrightarrow>
   sum_list (map (\<lambda>x. if j = x \<and> P x then f x else (0::real)) xs) =
     (if j \<in> set xs \<and> P j then f j else 0)"
  by (induction xs) auto

lemma score_product_lookup:
  assumes "distinct cols"
  shows "lookup0 (fst (score_product cols sim ur ms p acc)) j =
           lookup0 (fst acc) j + (if gains cols sim ur ms j p then sim j p * ur p else 0)"
    and "lookup0 (snd (score_product cols sim ur ms p acc)) j =
           lookup0 (snd acc) j + (if gains cols sim ur ms j p then \<bar>sim j p\<bar> else 0)"
proof -
  let ?others = "filter (\<lambda>other. other \<noteq> p) cols"
  have d: "distinct ?others" using assms by simp
  have a: "sum_list (map (\<lambda>e. if step_gain ur ms j e then g (snd e) else 0)
                (map (\<lambda>other. (other, sim other p)) ?others)) =
        (if gains cols sim ur ms j p then g (sim j p) else 0)" for g :: "real \<Rightarrow> real"
  proof -
    have "sum_list (map (\<lambda>e. if step_gain ur ms j e then g (snd e) else 0)
                (map (\<lambda>other. (other, sim other p)) ?others)) =
          sum_list (map (\<lambda>x. if j = x \<and> (ur x = 0 \<and> ms \<le> sim x p) then g (sim x p) else 0) ?others)"
      by (simp add: comp_def step_gain_def cong: if_cong)
    also have "\<dots> = (if j \<in> set ?others \<and> (ur j = 0 \<and> ms \<le> sim j p) then g (sim j p) else 0)"
      using d by (rule sum_list_single)
    also have "\<dots> = (if gains cols sim ur ms j p then g (sim j p) else 0)"
      by (auto simp: gains_def)
    finally show ?thesis .
  qed
  show "lookup0 (fst (score_product cols sim ur ms p acc)) j =
           lookup0 (fst acc) j + (if gains cols sim ur ms j p then sim j p * ur p else 0)"
    using a [of "\<lambda>s. s * ur p"]
    by (simp add: score_product_def Let_def fold_score_step_lookup)
  show "lookup0 (snd (score_product cols sim ur ms p acc)) j =
           lookup0 (snd acc) j + (if gains cols sim ur ms j p then \<bar>sim j p\<bar> else 0)"
    using a [of "\<lambda>s. \<bar>s\<bar>"]
    by (simp add: score_product_def Let_def fold_score_step_lookup)
qed

lemma score_product_keys:
  "fst ` set (fst (score_product cols sim ur ms p acc)) =
     fst ` set (fst acc) \<union> {j. gains cols sim ur ms j p}"
  "fst ` set (snd (score_product cols sim ur ms p acc)) =
     fst ` set (snd acc) \<union> {j. gains cols sim ur ms j p}"
  by (auto simp: score_product_def Let_def fold_score_step_keys step_gain_def gains_def)

lemma fold_score_product_lookup:
  assumes "distinct cols"
  shows "lookup0 (fst (fold (score_product cols sim ur ms) ps acc)) j =
           lookup0 (fst acc) j
           + sum_list (map (\<lambda>p. if gains cols sim ur ms j p then sim j p * ur p else 0) ps)"
    and "lookup0 (snd (fold (score_product cols sim ur ms) ps acc)) j =
           lookup0 (snd acc) j
           + sum_list (map (\<lambda>p. if gains cols sim ur ms j p then \<bar>sim j p\<bar> else 0) ps)"
  by (induction ps arbitrary: acc) (simp_all add: score_product_lookup [OF assms])

lemma fold_score_product_keys:
  "fst ` set (fst (fold (score_product cols sim ur ms) ps acc)) =
     fst ` set (fst acc) \<union> {j. \<exists>p \<in> set ps. gains cols sim ur ms j p}"
  "fst ` set (snd (fold (score_product cols sim ur ms) ps acc)) =
     fst ` set (snd acc) \<union> {j. \<exists>p \<in> set ps. gains cols sim ur ms j p}"
  by (induction ps arbitrary: acc) (auto simp: score_product_keys)

lemma sum_list_if_filter:
  "sum_list (map (\<lambda>x. if P x then f x else (0::real)) xs) = sum_list (map f (filter P xs))"
  by (induction xs) auto

lemma map_of_lookup0:
  "k \<in> fst ` set d \<Longrightarrow> map_of d k = Some (lookup0 d k)"
  by (cases "map_of d k") (auto simp: lookup0_def map_of_eq_None_iff)

lemma map_of_absent: "k \<notin> fst ` set d \<Longrightarrow> map_of d k = None"
  by (simp add: map_of_eq_None_iff)

lemma filter_gains:
  "filter (gains cols sim ur ms j) ps =
     (if j \<in> set cols \<and> ur j = 0 then filter (\<lambda>p. j \<noteq> p \<and> ms \<le> sim j p) ps else [])"
  by (induction ps) (auto simp: gains_def)

lemma distinct_pivot_columns: "distinct (pivot_columns obs)"
  by (simp add: pivot_columns_def)

lemma lookup0_Nil: "lookup0 [] j = 0"
  by (simp add: lookup0_def)

lemma accumulators_lookup:
  "lookup0 (fst (accumulators obs uid ms)) j =
     (if j \<in> set (pivot_columns obs) \<and> matrix_at obs uid j = 0
      then weighted_sum obs uid ms j else 0)"
  "lookup0 (snd (accumulators obs uid ms)) j =
     (if j \<in> set (pivot_columns obs) \<and> matrix_at obs uid j = 0
      then weight_sum obs uid ms j else 0)"
  by (simp_all add: accumulators_def fold_score_product_lookup [OF distinct_pivot_columns]
      sum_list_if_filter filter_gains lookup0_Nil weighted_sum_def weight_sum_def
      contributors_def)

lemma accumulators_keys:
  "fst ` set (fst (accumulators obs uid ms)) =
     {j. j \<in> set (pivot_columns obs) \<and> matrix_at obs uid j = 0
         \<and> contributors obs uid ms j \<noteq> []}"
  "fst ` set (snd (accumulators obs uid ms)) =
     {j. j \<in> set (pivot_columns obs) \<and> matrix_at obs uid j = 0
         \<and> contributors obs uid ms j \<noteq> []}"
  by (auto simp: accumulators_def fold_score_product_keys gains_def contributors_def
      filter_empty_conv)

lemma accumulators_map_of:
  "map_of (fst (accumulators obs uid ms)) j =
     (if candidate obs uid ms j then Some (weighted_sum obs uid ms j) else None)"
  "map_of (snd (accumulators obs uid ms)) j =
     (if candidate obs uid ms j then Some (weight_sum obs uid ms j) else None)"
proof -
  have k1: "j \<in> fst ` set (fst (accumulators obs uid ms)) \<longleftrightarrow> candidate obs uid ms j"
    by (simp add: accumulators_keys candidate_def)
  have k2: "j \<in> fst ` set (snd (accumulators obs uid ms)) \<longleftrightarrow> candidate obs uid ms j"
    by (simp add: accumulators_keys candidate_def)
  show "map_of (fst (accumulators obs uid ms)) j =
     (if candidate obs uid ms j then Some (weighted_sum obs uid ms j) else None)"
  proof (cases "candidate obs uid ms j")
    case True
    with k1 have "map_of (fst (accumulators obs uid ms)) j
        = Some (lookup0 (fst (accumulators obs uid ms)) j)"
      by (simp add: map_of_lookup0)
    with True show ?thesis by (simp add: accumulators_lookup candidate_def)
  next
    case False
    with k1 show ?thesis by (simp add: map_of_absent)
  qed
  show "map_of (snd (accumulators obs uid ms)) j =
     (if candidate obs uid ms j then Some (weight_sum obs uid ms j) else None)"
  proof (cases "candidate obs uid ms j")
    case True
    with k2 have "map_of (snd (accumulators obs uid ms)) j
        = Some (lookup0 (snd (accumulators obs uid ms)) j)"
      by (simp add: map_of_lookup0)
    with True show ?thesis by (simp add: accumulators_lookup candidate_def)
  next
    case False
    with k2 show ?thesis by (simp add: map_of_absent)
  qed
qed

lemma normalize_scores_entry:
  assumes "e \<in> set (normalize_scores scores ws)"
  shows "\<exists>s. (fst e, s) \<in> set scores \<and>
             snd e = (case map_of ws (fst e) of
                        Some w \<Rightarrow> if 0 < w then s / w else s | None \<Rightarrow> s)"
  using assms by (auto simp: normalize_scores_def split: option.splits if_splits)

lemma accumulators_distinct: "distinct (map fst (fst (accumulators obs uid ms)))"
  by (simp add: accumulators_def fold_score_product_distinct)

lemma normalized_entry:
  assumes "e \<in> set (normalize_scores (fst (accumulators obs uid ms)) (snd (accumulators obs uid ms)))"
  shows "candidate obs uid ms (fst e) \<and> snd e = final_score obs uid ms (fst e)"
proof -
  let ?acc = "accumulators obs uid ms"
  from normalize_scores_entry [OF assms] obtain s where
    s: "(fst e, s) \<in> set (fst ?acc)" and
    v: "snd e = (case map_of (snd ?acc) (fst e) of
                        Some w \<Rightarrow> if 0 < w then s / w else s | None \<Rightarrow> s)"
    by blast
  from s have "map_of (fst ?acc) (fst e) = Some s"
    using accumulators_distinct by (simp add: map_of_eq_Some_iff)
  then have c: "candidate obs uid ms (fst e)" and sv: "s = weighted_sum obs uid ms (fst e)"
    by (auto simp: accumulators_map_of split: if_splits)
  from c v sv show ?thesis
    by (simp add: accumulators_map_of final_score_def)
qed

lemma scored_rows_entry:
  assumes "row \<in> set (scored_rows scores n g)"
  shows "(rec_product_id row, score row) \<in> set scores"
proof -
  obtain m where m: "slice_to (sort_key (\<lambda>e. - snd e) scores) n
                       = take m (sort_key (\<lambda>e. - snd e) scores)"
    using slice_to_is_take by blast
  from assms obtain e where e: "e \<in> set (take m (sort_key (\<lambda>e. - snd e) scores))"
      and r: "row = \<lparr>rec_product_id = fst e, score = snd e, estimated_rating = g e\<rparr>"
    by (auto simp: scored_rows_def m)
  from e have "e \<in> set scores"
    using set_take_subset [of m "sort_key (\<lambda>e. - snd e) scores"] by auto
  with r show ?thesis by simp
qed

lemma recommend_scored_main_path:
  assumes "recommend_scored df col uid n ms nm = Inr rows"
      and "rated_items_of (observed df col) uid \<noteq> []"
  shows "\<exists>g. rows = scored_rows (normalize_scores (fst (accumulators (observed df col) uid ms))
                                   (snd (accumulators (observed df col) uid ms))) n g"
proof -
  let ?obs = "observed df col"
  let ?scores = "normalize_scores (fst (accumulators ?obs uid ms)) (snd (accumulators ?obs uid ms))"
  have e: "scored_rows [] n g = []" for g
    by (simp add: scored_rows_def slice_to_def)
  show ?thesis
  proof (cases "?scores = []")
    case True
    with assms have "rows = []"
      by (simp add: recommend_scored_def Let_def accumulators_def rated_items_of_def sim_of_def
          split: if_splits)
    with True e show ?thesis by simp
  next
    case False
    with assms show ?thesis
      by (auto simp: recommend_scored_def Let_def accumulators_def rated_items_of_def sim_of_def
          scored_rows_def split: if_splits option.splits list.splits)
  qed
qed

lemma recommend_scored_scores:
  assumes "recommend_scored df col uid n ms nm = Inr rows"
      and "rated_items_of (observed df col) uid \<noteq> []"
      and "row \<in> set rows"
  shows "candidate (observed df col) uid ms (rec_product_id row)
       \<and> score row = final_score (observed df col) uid ms (rec_product_id row)"
proof -
  from recommend_scored_main_path [OF assms(1,2)] obtain g where
    "rows = scored_rows (normalize_scores (fst (accumulators (observed df col) uid ms))
                                   (snd (accumulators (observed df col) uid ms))) n g"
    by blast
  with assms(3) have "(rec_product_id row, score row) \<in>
      set (normalize_scores (fst (accumulators (observed df col) uid ms))
                                   (snd (accumulators (observed df col) uid ms)))"
    by (simp add: scored_rows_entry)
  from normalized_entry [OF this] show ?thesis by simp
qed

lemmas eval_defs = recommend_for_user_def tied_table_def mk_def recommend_scored_def
      observed_def pivot_index_def pivot_columns_def Let_def matrix_at_def mean_def
      cosine_similarity_def item_vector_def l2_normalize_def score_product_def
      score_step_def normalize_scores_def clip_def slice_to_def

lemma tied_cells:
  "rating_cells tied_table False ''mean_center'' =
     [(1,10,4),(1,11,4),(2,10,3),(2,30,2),(3,11,3),(3,20,2)]"
  by (simp add: rating_cells_def observed_def tied_table_def mk_def)

lemma zero_weight_result:
  "recommend_for_user tied_table 2 10 0 False ''mean_center'' 2 =
     Inr [\<lparr>rec_product_id = 11, score = 3, estimated_rating = Some 3\<rparr>,
          \<lparr>rec_product_id = 20, score = 0, estimated_rating = Some 0.5\<rparr>]"
  by (simp add: eval_defs)

lemma zero_weight_acc:
  "map_of (snd (accumulators (rating_cells tied_table False ''mean_center'') 2 0)) 20 = Some 0"
  unfolding tied_cells by (simp add: accumulators_def rated_items_of_def sim_of_def eval_defs)

subsection \<open>Normalisation and its inverse\<close>

lemma std_zero_all_mean:
  assumes "std xs = Some 0" and "x \<in> set xs"
  shows "x = mean xs"
proof -
  from assms(1) have len: "2 \<le> length xs"
    and sq: "sqrt (sum_list (map (\<lambda>x. (x - mean xs) * (x - mean xs)) xs) / real (length xs - 1)) = 0"
    by (auto simp: std_def split: if_splits)
  from len have "0 < real (length xs - 1)" by simp
  with sq have "sum_list (map (\<lambda>x. (x - mean xs) * (x - mean xs)) xs) = 0"
    by simp
  moreover have "\<And>y. y \<in> set (map (\<lambda>x. (x - mean xs) * (x - mean xs)) xs) \<Longrightarrow> 0 \<le> y"
    by auto
  ultimately have "\<forall>y \<in> set (map (\<lambda>x. (x - mean xs) * (x - mean xs)) xs). y = 0"
    by (simp only: sum_list_nonneg_eq_0_iff)
  with assms(2) have "(x - mean xs) * (x - mean xs) = 0" by simp
  then show ?thesis by simp
qed

lemma z_score_round_trip:
  assumes "std xs = Some s" and "x \<in> set xs"
  shows "denormalize_rating (div_nan (x - mean xs) (replace_zero (std xs))) (mean xs) (std xs)
           ''z_score'' = Some x"
proof (cases "s = 0")
  case True
  with assms have "x = mean xs" by (simp add: std_zero_all_mean)
  with True assms(1) show ?thesis
    by (simp add: denormalize_rating_def div_nan_def replace_zero_def)
next
  case False
  with assms(1) show ?thesis
    by (simp add: denormalize_rating_def div_nan_def replace_zero_def)
qed

lemma mean_center_round_trip:
  "denormalize_rating (Some (x - m)) m s ''mean_center'' = Some x"
  by (simp add: denormalize_rating_def)

lemma normalize_round_trip:
  assumes "normalize_ratings_per_user df method = Inr ndf"
      and "r \<in> set ndf"
      and "method = ''mean_center''
           \<or> method = ''z_score'' \<and> 2 \<le> length (user_group df (user_id r))"
  shows "denormalize_rating (normalized_rating r) (mean (user_group df (user_id r)))
           (std (user_group df (user_id r))) method = Some (rating r)"
proof -
  from assms(3) show ?thesis
  proof
    assume m: "method = ''mean_center''"
    with assms(1,2) obtain r0 where "r0 \<in> set df"
      and "r = with_normalized r0 (Some (rating r0 - mean (user_group df (user_id r0))))"
      by (auto simp: normalize_ratings_per_user_def Let_def)
    then show ?thesis
      by (simp add: m with_normalized_def mean_center_round_trip)
  next
    assume m: "method = ''z_score'' \<and> 2 \<le> length (user_group df (user_id r))"
    with assms(1,2) obtain r0 where r0: "r0 \<in> set df"
      and r: "r = with_normalized r0 (div_nan (rating r0 - mean (user_group df (user_id r0)))
                   (replace_zero (std (user_group df (user_id r0)))))"
      by (auto simp: normalize_ratings_per_user_def Let_def)
    from r have u: "user_id r = user_id r0" and rt: "rating r = rating r0"
      by (simp_all add: with_normalized_def)
    from m u obtain s where s: "std (user_group df (user_id r0)) = Some s"
      by (auto simp: std_def)
    from r0 have "rating r0 \<in> set (user_group df (user_id r0))"
      by (auto simp: user_group_def)
    from z_score_round_trip [OF s this] show ?thesis
      by (simp add: m r with_normalized_def)
  qed
qed

text \<open>
  C5, at a failing input. The only rating of user 1 has no sample standard deviation, so
  its \<^verbatim>\<open>z_score\<close> normalisation is NaN and denormalising gives NaN, not the rating 4,
  whether the statistics' deviation or the replaced one is passed.
\<close>

theorem single_rating_not_recovered:
  "normalize_ratings_per_user single_rating_table ''z_score'' =
     Inr [with_normalized (mk 1 10 4) None]
   \<and> std (user_group single_rating_table 1) = None
   \<and> denormalize_rating None (mean (user_group single_rating_table 1))
        (std (user_group single_rating_table 1)) ''z_score'' = None
   \<and> denormalize_rating None (mean (user_group single_rating_table 1))
        (replace_zero (std (user_group single_rating_table 1))) ''z_score'' \<noteq> Some 4"
  by (simp add: normalize_ratings_per_user_def single_rating_table_def mk_def user_group_def
      mean_def std_def replace_zero_def div_nan_def with_normalized_def Let_def
      denormalize_rating_def)

subsection \<open>Popular items and the cold start\<close>

lemma popular_stats_entry:
  "e \<in> set (popular_stats df m) \<longleftrightarrow>
     qualifies df m (fst e)
     \<and> snd e = (mean (product_ratings df (fst e)), length (product_ratings df (fst e)))"
  by (cases e) (auto simp: popular_stats_def qualifies_def product_ratings_def Let_def)

lemma popular_stats_keys: "set (map fst (popular_stats df m)) = {p. qualifies df m p}"
proof (intro set_eqI iffI)
  fix p assume "p \<in> set (map fst (popular_stats df m))"
  then show "p \<in> {p. qualifies df m p}"
    by (auto simp: popular_stats_entry)
next
  fix p assume "p \<in> {p. qualifies df m p}"
  then have "(p, mean (product_ratings df p), length (product_ratings df p))
               \<in> set (popular_stats df m)"
    by (simp add: popular_stats_entry)
  then show "p \<in> set (map fst (popular_stats df m))"
    by force
qed

lemma length_popular_stats: "length (popular_stats df m) = card {p. qualifies df m p}"
proof -
  have "card (set (map fst (popular_stats df m))) = length (map fst (popular_stats df m))"
    using distinct_popular_stats by (rule distinct_card)
  then have "card {p. qualifies df m p} = length (map fst (popular_stats df m))"
    by (simp only: popular_stats_keys)
  then show ?thesis by simp
qed

lemma sorted_take_drop:
  assumes "sorted (map f xs)" and "x \<in> set (take k xs)" and "y \<in> set (drop k xs)"
  shows "f x \<le> f y"
proof -
  have "sorted (map f (take k xs) @ map f (drop k xs))"
    using assms(1) by (simp add: map_append [symmetric] del: map_append)
  with assms(2,3) show ?thesis
    by (auto simp: sorted_append)
qed

lemma get_popular_items_rows:
  assumes "row \<in> set (get_popular_items df n m)"
  shows "qualifies df m (rec_product_id row)
       \<and> score row = mean (product_ratings df (rec_product_id row))
       \<and> estimated_rating row = Some (score row)"
proof -
  obtain k where k: "slice_to (sort_key (\<lambda>e. - fst (snd e)) (popular_stats df m)) n
                       = take k (sort_key (\<lambda>e. - fst (snd e)) (popular_stats df m))"
    using slice_to_is_take by blast
  from assms obtain e where e: "e \<in> set (take k (sort_key (\<lambda>e. - fst (snd e)) (popular_stats df m)))"
    and r: "row = \<lparr>rec_product_id = fst e, score = fst (snd e),
                    estimated_rating = Some (fst (snd e))\<rparr>"
    by (auto simp: get_popular_items_eq k)
  from e have "e \<in> set (popular_stats df m)"
    using set_take_subset [of k "sort_key (\<lambda>e. - fst (snd e)) (popular_stats df m)"] by auto
  then have "qualifies df m (fst e) \<and> fst (snd e) = mean (product_ratings df (fst e))"
    by (simp add: popular_stats_entry)
  with r show ?thesis by simp
qed

lemma get_popular_items_length:
  assumes "0 \<le> n"
  shows "length (get_popular_items df n m) = min (nat n) (card {p. qualifies df m p})"
  using assms by (simp add: get_popular_items_eq slice_to_def length_popular_stats min.commute)

lemma get_popular_items_top:
  assumes "qualifies df m p" and "p \<notin> rec_product_id ` set (get_popular_items df n m)"
      and "row \<in> set (get_popular_items df n m)"
  shows "mean (product_ratings df p) \<le> score row"
proof -
  let ?sorted = "sort_key (\<lambda>e. - fst (snd e)) (popular_stats df m)"
  let ?e = "(p, mean (product_ratings df p), length (product_ratings df p))"
  obtain k where k: "slice_to ?sorted n = take k ?sorted"
    using slice_to_is_take by blast
  from assms(3) obtain e where e: "e \<in> set (take k ?sorted)"
    and r: "score row = fst (snd e)"
    by (auto simp: get_popular_items_eq k)
  from assms(1) have "?e \<in> set ?sorted"
    by (simp add: popular_stats_entry)
  then have "?e \<in> set (take k ?sorted) \<union> set (drop k ?sorted)"
    by (simp add: set_append [symmetric] del: set_append)
  moreover have "?e \<notin> set (take k ?sorted)"
  proof
    assume "?e \<in> set (take k ?sorted)"
    then have "p \<in> rec_product_id ` set (get_popular_items df n m)"
      by (force simp: get_popular_items_eq k)
    with assms(2) show False by simp
  qed
  ultimately have d: "?e \<in> set (drop k ?sorted)" by simp
  have "sorted (map (\<lambda>e. - fst (snd e)) ?sorted)" by simp
  from sorted_take_drop [OF this e d] r show ?thesis by simp
qed

lemma normalize_shape:
  assumes "normalize_ratings_per_user df method = Inr ndf"
  shows "\<exists>h. ndf = map (\<lambda>r. with_normalized r (h r)) df"
proof -
  let ?c = "\<lambda>r. Some (rating r - mean (user_group df (user_id r)))"
  let ?z = "\<lambda>r. div_nan (rating r - mean (user_group df (user_id r)))
            (replace_zero (std (user_group df (user_id r))))"
  let ?m = "\<lambda>r. Some ((rating r - Min (set (user_group df (user_id r)))) /
           (if Max (set (user_group df (user_id r))) - Min (set (user_group df (user_id r))) = 0
            then 1
            else Max (set (user_group df (user_id r))) - Min (set (user_group df (user_id r)))))"
  consider "method = ''mean_center''" | "method = ''z_score''" | "method = ''min_max''"
    using assms by (auto simp: normalize_ratings_per_user_def split: if_splits)
  then show ?thesis
  proof cases
    case 1
    with assms have "ndf = map (\<lambda>r. with_normalized r (?c r)) df"
      by (simp add: normalize_ratings_per_user_def Let_def)
    then show ?thesis by (rule exI [where x = ?c])
  next
    case 2
    with assms have "ndf = map (\<lambda>r. with_normalized r (?z r)) df"
      by (simp add: normalize_ratings_per_user_def Let_def)
    then show ?thesis by (rule exI [where x = ?z])
  next
    case 3
    with assms have "ndf = map (\<lambda>r. with_normalized r (?m r)) df"
      by (simp add: normalize_ratings_per_user_def Let_def)
    then show ?thesis by (rule exI [where x = ?m])
  qed
qed

lemma get_popular_items_normalized:
  assumes "normalize_ratings_per_user df method = Inr ndf"
  shows "get_popular_items ndf n m = get_popular_items df n m"
proof -
  from normalize_shape [OF assms] obtain h where h: "ndf = map (\<lambda>r. with_normalized r (h r)) df"
    by blast
  have p: "map product_id ndf = map product_id df"
    by (simp add: h with_normalized_def comp_def)
  have g: "map rating (filter (\<lambda>r. product_id r = q) ndf)
         = map rating (filter (\<lambda>r. product_id r = q) df)" for q
    by (simp add: h filter_map comp_def with_normalized_def)
  show ?thesis
    by (simp add: get_popular_items_def p g)
qed

lemma recommend_scored_cold_start:
  assumes "uid \<in> set (pivot_index (observed df col))"
      and "rated_items_of (observed df col) uid = []"
  shows "recommend_scored df col uid n ms nm = Inr (get_popular_items df n 5)"
  using assms by (auto simp: recommend_scored_def Let_def rated_items_of_def)

lemma rating_cells_normalized:
  assumes "normalize_ratings_per_user df method = Inr ndf"
  shows "rating_cells df True method = observed ndf normalized_rating"
  using assms by (simp add: rating_cells_def)

text \<open>
  C9. When the matrix row of the target user exists and holds 0 everywhere,
  \<open>recommend_for_user\<close> returns \<open>get_popular_items df n 5\<close>: products with at least 5
  ratings, each with its mean rating as score and estimate, in descending order of the
  mean, the first \<open>n\<close> of them, so that no product left out has a larger mean than one
  returned.
\<close>

theorem cold_start_popular:
  assumes "uid \<in> user_id ` set df"
      and "un \<longrightarrow> method \<in> {''mean_center'', ''z_score'', ''min_max''}"
      and "obs = rating_cells df un method"
      and "uid \<in> set (pivot_index obs)"
      and "\<forall>p \<in> set (pivot_columns obs). matrix_at obs uid p = 0"
  shows "recommend_for_user df uid n ms un method mci = Inr (get_popular_items df n 5)
       \<and> (\<forall>row \<in> set (get_popular_items df n 5).
             qualifies df 5 (rec_product_id row)
           \<and> score row = mean (product_ratings df (rec_product_id row))
           \<and> estimated_rating row = Some (score row))
       \<and> distinct (map rec_product_id (get_popular_items df n 5))
       \<and> descending (map score (get_popular_items df n 5))
       \<and> (0 \<le> n \<longrightarrow>
            length (get_popular_items df n 5) = min (nat n) (card {p. qualifies df 5 p}))
       \<and> (\<forall>p. qualifies df 5 p \<and> p \<notin> rec_product_id ` set (get_popular_items df n 5) \<longrightarrow>
             (\<forall>row \<in> set (get_popular_items df n 5).
                mean (product_ratings df p) \<le> score row))"
proof -
  from assms(5) have cold: "rated_items_of obs uid = []"
    by (auto simp: rated_items_of_def filter_empty_conv)
  have r: "recommend_for_user df uid n ms un method mci = Inr (get_popular_items df n 5)"
  proof (cases un)
    case False
    with assms(3) have o: "obs = observed df (\<lambda>r. Some (rating r))"
      by (simp add: rating_cells_def)
    from assms(4) cold have "recommend_scored df (\<lambda>r. Some (rating r)) uid n ms None
        = Inr (get_popular_items df n 5)"
      unfolding o by (rule recommend_scored_cold_start)
    with False assms(1) show ?thesis
      by (simp add: recommend_for_user_def)
  next
    case True
    with assms(2) obtain ndf where nd: "normalize_ratings_per_user df method = Inr ndf"
      by (auto simp: normalize_ratings_per_user_def)
    with True assms(3) have o: "obs = observed ndf normalized_rating"
      by (simp add: rating_cells_def)
    from assms(4) cold have "recommend_scored ndf normalized_rating uid n ms (Some method)
        = Inr (get_popular_items ndf n 5)"
      unfolding o by (rule recommend_scored_cold_start)
    with True assms(1) nd show ?thesis
      by (simp add: recommend_for_user_def get_popular_items_normalized [OF nd])
  qed
  have a: "\<forall>row \<in> set (get_popular_items df n 5).
             qualifies df 5 (rec_product_id row)
           \<and> score row = mean (product_ratings df (rec_product_id row))
           \<and> estimated_rating row = Some (score row)"
    using get_popular_items_rows by blast
  have t: "\<forall>p. qualifies df 5 p \<and> p \<notin> rec_product_id ` set (get_popular_items df n 5) \<longrightarrow>
             (\<forall>row \<in> set (get_popular_items df n 5).
                mean (product_ratings df p) \<le> score row)"
    using get_popular_items_top by blast
  from r a t get_popular_items_props(1,2) [of df n 5] get_popular_items_length [of n df 5]
  show ?thesis by blast
qed

lemma constant_cells:
  "rating_cells constant_table True ''mean_center'' =
     [(1,10,0),(1,11,0),(2,10,0),(3,10,0),(4,10,0),(5,10,0)]"
  by (simp add: rating_cells_def normalize_ratings_per_user_def constant_table_def mk_def
      user_group_def mean_def with_normalized_def Let_def observed_def)

lemma constant_popular:
  "get_popular_items constant_table 10 5 =
     [\<lparr>rec_product_id = 10, score = 4, estimated_rating = Some 4\<rparr>]"
  by (simp add: get_popular_items_def constant_table_def mk_def mean_def Let_def slice_to_def)

theorem cold_start_popular_witness:
  "1 \<in> user_id ` set constant_table
   \<and> 1 \<in> set (pivot_index (rating_cells constant_table True ''mean_center''))
   \<and> list_all (\<lambda>p. matrix_at (rating_cells constant_table True ''mean_center'') 1 p = 0)
         (pivot_columns (rating_cells constant_table True ''mean_center''))
   \<and> recommend_for_user constant_table 1 10 0.1 True ''mean_center'' 2 =
       Inr [\<lparr>rec_product_id = 10, score = 4, estimated_rating = Some 4\<rparr>]"
proof -
  have a: "1 \<in> user_id ` set constant_table"
    by (simp add: constant_table_def mk_def)
  have b: "True \<longrightarrow> ''mean_center'' \<in> {''mean_center'', ''z_score'', ''min_max''}"
    by simp
  have c: "1 \<in> set (pivot_index (rating_cells constant_table True ''mean_center''))"
    unfolding constant_cells by (simp add: pivot_index_def)
  have d: "\<forall>p \<in> set (pivot_columns (rating_cells constant_table True ''mean_center'')).
         matrix_at (rating_cells constant_table True ''mean_center'') 1 p = 0"
    unfolding constant_cells by (simp add: pivot_columns_def matrix_at_def mean_def)
  from d have e: "list_all (\<lambda>p. matrix_at (rating_cells constant_table True ''mean_center'') 1 p = 0)
         (pivot_columns (rating_cells constant_table True ''mean_center''))"
    by (simp add: list_all_iff)
  from cold_start_popular [OF a b refl c d, of 10 "0.1" 2] a c e constant_popular
  show ?thesis by simp
qed

subsection \<open>Estimated ratings\<close>

lemma remdups_constant:
  "xs \<noteq> [] \<Longrightarrow> \<forall>x \<in> set xs. x = a \<Longrightarrow> remdups xs = [a]"
proof (induction xs)
  case Nil
  then show ?case by simp
next
  case (Cons x xs)
  then show ?case by (cases xs) auto
qed

lemma user_group_filter:
  "user_group (filter (\<lambda>r. user_id r = uid) df) uid = user_group df uid"
  by (simp add: user_group_def conj_commute)

lemma get_user_statistics_single:
  assumes "uid \<in> user_id ` set df"
  shows "get_user_statistics (filter (\<lambda>r. user_id r = uid) df) =
           [\<lparr>stats_user_id = uid, mean_rating = mean (user_group df uid),
             std_rating = std (user_group df uid),
             min_rating = Min (set (user_group df uid)),
             max_rating = Max (set (user_group df uid)),
             rating_count = length (user_group df uid)\<rparr>]"
proof -
  have ne: "map user_id (filter (\<lambda>r. user_id r = uid) df) \<noteq> []"
    using assms by (auto simp: filter_empty_conv)
  have "\<forall>x \<in> set (map user_id (filter (\<lambda>r. user_id r = uid) df)). x = uid"
    by auto
  with ne have "remdups (map user_id (filter (\<lambda>r. user_id r = uid) df)) = [uid]"
    by (rule remdups_constant)
  then show ?thesis
    by (simp add: get_user_statistics_def user_group_filter Let_def)
qed

lemma pivot_index_user:
  assumes "uid \<in> set (pivot_index (observed df col))"
  shows "\<exists>r \<in> set df. user_id r = uid \<and> col r \<noteq> None"
proof -
  from assms obtain c where c: "c \<in> set (observed df col)" "fst c = uid"
    by (auto simp: pivot_index_def)
  from c(1) obtain r where r: "r \<in> set df"
    "c \<in> set (case col r of None \<Rightarrow> [] | Some v \<Rightarrow> [(user_id r, product_id r, v)])"
    by (auto simp: observed_def)
  from r(2) c(2) have "user_id r = uid \<and> col r \<noteq> None"
    by (cases "col r") auto
  with r(1) show ?thesis by blast
qed

lemma recommend_scored_estimate:
  assumes "recommend_scored df col uid n ms nm = Inr rows"
      and "rated_items_of (observed df col) uid \<noteq> []"
      and "row \<in> set rows"
  shows "estimated_rating row = clip 0.5 5.0 (estimate_of nm (user_group df uid) (score row))"
proof -
  let ?obs = "observed df col"
  let ?scores = "normalize_scores (fst (accumulators ?obs uid ms)) (snd (accumulators ?obs uid ms))"
  from assms(1) have idx: "uid \<in> set (pivot_index ?obs)"
    by (auto simp: recommend_scored_def Let_def split: if_splits)
  then have "uid \<in> user_id ` set df"
    using pivot_index_user by blast
  note st = get_user_statistics_single [OF this]
  have ne: "?scores \<noteq> []"
  proof
    assume e: "?scores = []"
    from recommend_scored_main_path [OF assms(1,2)] obtain g where
      "rows = scored_rows ?scores n g" by blast
    with e have "rows = []" by (simp add: scored_rows_def slice_to_def)
    with assms(3) show False by simp
  qed
  show ?thesis
  proof (cases nm)
    case None
    with assms(1,2) ne idx have "rows = map (\<lambda>e. \<lparr>rec_product_id = fst e, score = snd e,
             estimated_rating = clip 0.5 5.0 (Some (snd e))\<rparr>)
           (slice_to (sort_key (\<lambda>e. - snd e) ?scores) n)"
      by (auto simp: recommend_scored_def Let_def accumulators_def rated_items_of_def sim_of_def
          split: if_splits)
    with assms(3) None show ?thesis
      by (auto simp: estimate_of_def)
  next
    case (Some m)
    with assms(1,2) ne idx st have "rows = map (\<lambda>e. \<lparr>rec_product_id = fst e, score = snd e,
             estimated_rating = clip 0.5 5.0
               (estimate_of (Some m) (user_group df uid) (snd e))\<rparr>)
           (slice_to (sort_key (\<lambda>e. - snd e) ?scores) n)"
      by (auto simp: recommend_scored_def Let_def accumulators_def rated_items_of_def sim_of_def
          estimate_of_def split: if_splits)
    with assms(3) Some show ?thesis
      by auto
  qed
qed

lemma clip_range:
  "\<exists>x. clip 0.5 5.0 (Some v) = Some x \<and> 0.5 \<le> x \<and> x \<le> 5"
  by (simp add: clip_def)

lemma sum_list_bounds:
  "\<forall>x \<in> set xs. lo \<le> x \<and> x \<le> hi \<Longrightarrow>
   real (length xs) * lo \<le> sum_list xs \<and> sum_list xs \<le> real (length xs) * hi"
  by (induction xs) (auto simp: algebra_simps)

lemma mean_bounds:
  assumes "xs \<noteq> []" and "\<forall>x \<in> set xs. lo \<le> x \<and> x \<le> hi"
  shows "lo \<le> mean xs \<and> mean xs \<le> hi"
proof -
  from assms(1) have pos: "0 < real (length xs)" by simp
  from sum_list_bounds [OF assms(2)] pos show ?thesis
    by (simp add: mean_def pos_le_divide_eq pos_divide_le_eq mult.commute)
qed

lemma popular_estimate_range:
  assumes "\<forall>r \<in> set df. lo \<le> rating r \<and> rating r \<le> hi"
      and "row \<in> set (get_popular_items df n m)"
  shows "\<exists>x. estimated_rating row = Some x \<and> lo \<le> x \<and> x \<le> hi"
proof -
  from get_popular_items_rows [OF assms(2)] have q: "qualifies df m (rec_product_id row)"
    and s: "score row = mean (product_ratings df (rec_product_id row))"
    and e: "estimated_rating row = Some (score row)"
    by simp_all
  from q have "product_ratings df (rec_product_id row) \<noteq> []"
    by (auto simp: qualifies_def product_ratings_def filter_empty_conv)
  moreover have "\<forall>x \<in> set (product_ratings df (rec_product_id row)). lo \<le> x \<and> x \<le> hi"
    using assms(1) by (auto simp: product_ratings_def)
  ultimately have "lo \<le> score row \<and> score row \<le> hi"
    unfolding s by (rule mean_bounds)
  with e show ?thesis by simp
qed

lemma recommend_scored_range:
  assumes "recommend_scored df col uid n ms nm = Inr rows"
      and "\<forall>r \<in> set df. 0.5 \<le> rating r \<and> rating r \<le> 5"
      and "nm = Some ''z_score'' \<longrightarrow> uid \<in> set (pivot_index (observed df col)) \<longrightarrow>
             std (user_group df uid) \<noteq> None"
      and "row \<in> set rows"
  shows "\<exists>x. estimated_rating row = Some x \<and> 0.5 \<le> x \<and> x \<le> 5"
proof (cases "rated_items_of (observed df col) uid = []")
  case True
  with assms(1) have "rows = get_popular_items df n 5"
    by (auto simp: recommend_scored_def Let_def rated_items_of_def split: if_splits)
  with assms(2,4) show ?thesis
    using popular_estimate_range [of df "0.5" 5 row n 5] by simp
next
  case False
  from assms(1) have idx: "uid \<in> set (pivot_index (observed df col))"
    by (auto simp: recommend_scored_def Let_def split: if_splits)
  have "\<exists>v. estimate_of nm (user_group df uid) (score row) = Some v"
    using assms(3) idx by (auto simp: estimate_of_def split: option.splits)
  then obtain v where "estimate_of nm (user_group df uid) (score row) = Some v" ..
  with recommend_scored_estimate [OF assms(1) False assms(4)] clip_range [of v]
  show ?thesis by simp
qed

lemma user_group_normalized:
  assumes "normalize_ratings_per_user df method = Inr ndf"
  shows "user_group ndf u = user_group df u"
proof -
  from normalize_shape [OF assms] obtain h where h: "ndf = map (\<lambda>r. with_normalized r (h r)) df"
    by blast
  show ?thesis
    by (simp add: user_group_def h filter_map comp_def with_normalized_def)
qed

lemma z_score_observed_std:
  assumes "normalize_ratings_per_user df ''z_score'' = Inr ndf"
      and "uid \<in> set (pivot_index (observed ndf normalized_rating))"
  shows "std (user_group df uid) \<noteq> None"
proof -
  from pivot_index_user [OF assms(2)] obtain r where r: "r \<in> set ndf" "user_id r = uid"
    "normalized_rating r \<noteq> None" by blast
  from assms(1) r(1) obtain r0 where
    "r = with_normalized r0 (div_nan (rating r0 - mean (user_group df (user_id r0)))
                   (replace_zero (std (user_group df (user_id r0)))))"
    by (auto simp: normalize_ratings_per_user_def Let_def)
  with r(2,3) show ?thesis
    by (auto simp: with_normalized_def div_nan_def replace_zero_def split: option.splits)
qed

lemma ratings_normalized:
  assumes "normalize_ratings_per_user df method = Inr ndf"
      and "\<forall>r \<in> set df. P (rating r)"
  shows "\<forall>r \<in> set ndf. P (rating r)"
proof -
  from normalize_shape [OF assms(1)] obtain h where h: "ndf = map (\<lambda>r. with_normalized r (h r)) df"
    by blast
  from assms(2) show ?thesis
    by (auto simp: h with_normalized_def)
qed

text \<open>
  C8. For a table whose ratings lie in the valid range \<open>[0.5, 5]\<close>, the estimated rating of
  every row returned by \<open>recommend_for_user\<close> is a number in \<open>[0.5, 5]\<close>, normalised or
  not, cold start included: the scored rows are clipped, and the cold-start rows carry a
  mean of ratings of the table.
\<close>

theorem estimated_rating_in_range:
  assumes "recommend_for_user df uid n ms un method mci = Inr rows"
      and "\<forall>r \<in> set df. 0.5 \<le> rating r \<and> rating r \<le> 5"
      and "row \<in> set rows"
  shows "\<exists>x. estimated_rating row = Some x \<and> 0.5 \<le> x \<and> x \<le> 5"
proof -
  from recommend_for_user_Inr [OF assms(1)] consider
      ndf :: "normalized_record list" where
        "normalize_ratings_per_user df method = Inr ndf"
        "recommend_scored ndf normalized_rating uid n ms (Some method) = Inr rows"
    | "recommend_scored df (\<lambda>r. Some (rating r)) uid n ms None = Inr rows"
    by blast
  then show ?thesis
  proof cases
    case 1
    have a: "\<forall>r \<in> set ndf. 0.5 \<le> rating r \<and> rating r \<le> 5"
      using ratings_normalized [OF 1(1), of "\<lambda>x. 0.5 \<le> x \<and> x \<le> 5"] assms(2) by simp
    have b: "Some method = Some ''z_score'' \<longrightarrow>
             uid \<in> set (pivot_index (observed ndf normalized_rating)) \<longrightarrow>
             std (user_group ndf uid) \<noteq> None"
      using z_score_observed_std [of df ndf uid] 1(1)
      by (auto simp: user_group_normalized [OF 1(1)])
    from recommend_scored_range [OF 1(2) a b assms(3)] show ?thesis .
  next
    case 2
    from recommend_scored_range [OF 2 assms(2) _ assms(3)] show ?thesis by simp
  qed
qed

lemma constant_normalized:
  "normalize_ratings_per_user constant_table ''mean_center'' =
     Inr [with_normalized (mk 1 10 4) (Some 0), with_normalized (mk 1 11 4) (Some 0),
          with_normalized (mk 2 10 5) (Some 0), with_normalized (mk 3 10 3) (Some 0),
          with_normalized (mk 4 10 4) (Some 0), with_normalized (mk 5 10 4) (Some 0)]"
  by (simp add: normalize_ratings_per_user_def constant_table_def mk_def user_group_def mean_def
      with_normalized_def Let_def)

lemma constant_table_result:
  "recommend_for_user constant_table 1 10 0.1 True ''mean_center'' 2 =
     Inr [\<lparr>rec_product_id = 10, score = 4, estimated_rating = Some 4\<rparr>]"
  unfolding recommend_for_user_def constant_normalized
  by (simp add: constant_table_def mk_def with_normalized_def recommend_scored_def
      observed_def pivot_index_def pivot_columns_def Let_def matrix_at_def mean_def
      get_popular_items_def slice_to_def)

theorem estimated_rating_in_range_witness:
  "recommend_for_user tied_table 2 10 0 False ''mean_center'' 2 =
     Inr [\<lparr>rec_product_id = 11, score = 3, estimated_rating = Some 3\<rparr>,
          \<lparr>rec_product_id = 20, score = 0, estimated_rating = Some 0.5\<rparr>]
   \<and> list_all (\<lambda>r. 0.5 \<le> rating r \<and> rating r \<le> 5) tied_table
   \<and> (\<exists>x. estimated_rating \<lparr>rec_product_id = 20, score = 0, estimated_rating = Some 0.5\<rparr> = Some x
            \<and> 0.5 \<le> x \<and> x \<le> 5)
   \<and> recommend_for_user constant_table 1 10 0.1 True ''mean_center'' 2 =
     Inr [\<lparr>rec_product_id = 10, score = 4, estimated_rating = Some 4\<rparr>]
   \<and> list_all (\<lambda>r. 0.5 \<le> rating r \<and> rating r \<le> 5) constant_table
   \<and> (\<exists>x. estimated_rating \<lparr>rec_product_id = 10, score = 4, estimated_rating = Some 4\<rparr> = Some x
            \<and> 0.5 \<le> x \<and> x \<le> 5)"
proof -
  have a: "\<forall>r \<in> set tied_table. 0.5 \<le> rating r \<and> rating r \<le> 5"
    by (simp add: tied_table_def mk_def)
  have b: "\<lparr>rec_product_id = 20, score = 0, estimated_rating = Some 0.5\<rparr>
      \<in> set [\<lparr>rec_product_id = 11, score = 3, estimated_rating = Some 3\<rparr>,
          \<lparr>rec_product_id = 20, score = 0, estimated_rating = Some 0.5\<rparr>]"
    by simp
  from a have c: "list_all (\<lambda>r. 0.5 \<le> rating r \<and> rating r \<le> 5) tied_table"
    by (simp add: list_all_iff)
  have a': "\<forall>r \<in> set constant_table. 0.5 \<le> rating r \<and> rating r \<le> 5"
    by (simp add: constant_table_def mk_def)
  have b': "\<lparr>rec_product_id = 10, score = 4, estimated_rating = Some 4\<rparr>
      \<in> set [\<lparr>rec_product_id = 10, score = 4, estimated_rating = Some (4::real)\<rparr>]"
    by simp
  from a' have c': "list_all (\<lambda>r. 0.5 \<le> rating r \<and> rating r \<le> 5) constant_table"
    by (simp add: list_all_iff)
  from estimated_rating_in_range [OF zero_weight_result a b]
       estimated_rating_in_range [OF constant_table_result a' b']
       zero_weight_result constant_table_result c c'
  show ?thesis by (intro conjI)
qed

subsection \<open>Rated products in the result\<close>

lemma sum_list_positive:
  "xs \<noteq> [] \<Longrightarrow> \<forall>x \<in> set xs. (0::real) < x \<Longrightarrow> 0 < sum_list xs"
proof (induction xs)
  case Nil
  then show ?case by simp
next
  case (Cons x xs)
  show ?case
  proof (cases "xs = []")
    case True
    with Cons.prems show ?thesis by simp
  next
    case False
    with Cons have "0 < sum_list xs" by simp
    with Cons.prems show ?thesis by simp
  qed
qed

lemma mean_positive:
  assumes "xs \<noteq> []" and "\<forall>x \<in> set xs. 0 < x"
  shows "0 < mean xs"
  using sum_list_positive [OF assms] assms(1) by (simp add: mean_def)

lemma observed_raw:
  "observed df (\<lambda>r. Some (rating r)) = map (\<lambda>r. (user_id r, product_id r, rating r)) df"
  by (induction df) (simp_all add: observed_def)

lemma raw_cell_positive:
  assumes "\<forall>r \<in> set df. 0 < rating r" and "r \<in> set df"
  shows "0 < matrix_at (observed df (\<lambda>r. Some (rating r))) (user_id r) (product_id r)"
proof -
  let ?vs = "map rating (filter (\<lambda>q. user_id q = user_id r \<and> product_id q = product_id r) df)"
  have vs: "map (\<lambda>c. snd (snd c))
              (filter (\<lambda>c. fst c = user_id r \<and> fst (snd c) = product_id r)
                 (observed df (\<lambda>r. Some (rating r)))) = ?vs"
    by (simp add: observed_raw filter_map comp_def)
  from assms(2) have ne: "?vs \<noteq> []"
    by (auto simp: filter_empty_conv)
  have "\<forall>x \<in> set ?vs. 0 < x"
    using assms(1) by auto
  with ne have "0 < mean ?vs" by (rule mean_positive)
  with ne show ?thesis
    by (simp add: matrix_at_def vs Let_def)
qed

lemma raw_column_present:
  assumes "r \<in> set df"
  shows "product_id r \<in> set (pivot_columns (observed df (\<lambda>r. Some (rating r))))"
  using assms by (force simp: pivot_columns_def observed_raw)

lemma raw_rated_not_recommended:
  assumes "recommend_for_user df uid n ms False method mci = Inr rows"
      and "\<forall>r \<in> set df. 0 < rating r"
      and "r \<in> set df" and "user_id r = uid"
  shows "product_id r \<notin> rec_product_id ` set rows"
proof
  let ?obs = "observed df (\<lambda>r. Some (rating r))"
  assume "product_id r \<in> rec_product_id ` set rows"
  then obtain row where row: "row \<in> set rows" "rec_product_id row = product_id r"
    by auto
  from assms(1) have rs: "recommend_scored df (\<lambda>r. Some (rating r)) uid n ms None = Inr rows"
    by (simp add: recommend_for_user_def split: if_splits)
  from raw_cell_positive [OF assms(2,3)] assms(4)
  have pos: "0 < matrix_at ?obs uid (product_id r)" by simp
  with raw_column_present [OF assms(3)] have "rated_items_of ?obs uid \<noteq> []"
    by (auto simp: rated_items_of_def filter_empty_conv)
  from recommend_scored_scores [OF rs this row(1)] row(2)
  have "matrix_at ?obs uid (product_id r) = 0"
    by (simp add: candidate_def)
  with pos show False by simp
qed

lemma centred_normalized:
  "normalize_ratings_per_user centred_table ''mean_center'' =
     Inr [with_normalized (mk 1 10 4.5) (Some 1.5), with_normalized (mk 1 11 3) (Some 0),
          with_normalized (mk 1 12 1.5) (Some (-1.5)), with_normalized (mk 2 10 5) (Some 2),
          with_normalized (mk 2 11 3.5) (Some 0.5), with_normalized (mk 2 12 0.5) (Some (-2.5))]"
  by (simp add: normalize_ratings_per_user_def centred_table_def mk_def user_group_def mean_def
      with_normalized_def Let_def)

lemma centred_sqrt: "sqrt (25 / 4) = 5 / 2" "sqrt (1 / 4) = 1 / 2"
  by (simp_all add: real_sqrt_divide)

text \<open>
  C1, at a failing input. With \<^verbatim>\<open>use_normalized=True\<close> and \<^verbatim>\<open>mean_center\<close>, user 1 of
  \<open>centred_table\<close> is recommended product 11, which they rated 3: the rating equals their
  mean, its normalised value is 0, and 0 is what the loop reads as "not rated".
\<close>

theorem rated_product_recommended:
  "recommend_for_user centred_table 1 10 0.1 True ''mean_center'' 2 =
     Inr [\<lparr>rec_product_id = 11, score = 1.5, estimated_rating = Some 4.5\<rparr>]
   \<and> mk 1 11 3 \<in> set centred_table"
proof -
  have "recommend_for_user centred_table 1 10 0.1 True ''mean_center'' 2 =
     Inr [\<lparr>rec_product_id = 11, score = 1.5, estimated_rating = Some 4.5\<rparr>]"
    unfolding recommend_for_user_def centred_normalized
    by (simp add: centred_table_def mk_def with_normalized_def recommend_scored_def
      observed_def pivot_index_def pivot_columns_def Let_def matrix_at_def mean_def
      cosine_similarity_def item_vector_def l2_normalize_def score_product_def
      score_step_def normalize_scores_def clip_def slice_to_def get_user_statistics_def
      user_group_def centred_sqrt real_sqrt_divide)
  then show ?thesis by (simp add: centred_table_def)
qed

subsection \<open>Train/test split\<close>

lemma train_test_split_shuffle:
  assumes "train_test_split rng arr test_size seed = Inr split"
  shows "shuffle_split (rng seed) arr test_size = Inr split"
  using assms
  by (simp add: train_test_split_def check_random_state_def split: if_splits)

lemma shuffle_split_Inr:
  assumes "shuffle_split permutation arr test_size = Inr (tr, te)"
  shows "0 < test_size" and "test_size < 1"
    and "0 < nat \<lceil>test_size * real (length arr)\<rceil>"
    and "nat \<lceil>test_size * real (length arr)\<rceil> < length arr"
    and "tr = map (\<lambda>i. arr ! i)
               (take (length arr - nat \<lceil>test_size * real (length arr)\<rceil>)
                  (drop (nat \<lceil>test_size * real (length arr)\<rceil>) (permutation (length arr))))"
    and "te = map (\<lambda>i. arr ! i)
               (take (nat \<lceil>test_size * real (length arr)\<rceil>) (permutation (length arr)))"
proof -
  from assms have ne: "length arr \<noteq> 0" and ts: "0 < test_size" "test_size < 1"
    and tn: "length arr - nat \<lceil>test_size * real (length arr)\<rceil> \<noteq> 0"
    by (auto simp: shuffle_split_def Let_def split: if_splits)
  from ts show "0 < test_size" "test_size < 1" by simp_all
  from ne ts(1) have "0 < test_size * real (length arr)" by simp
  then have "0 < \<lceil>test_size * real (length arr)\<rceil>" by linarith
  then show "0 < nat \<lceil>test_size * real (length arr)\<rceil>" by simp
  from tn show "nat \<lceil>test_size * real (length arr)\<rceil> < length arr" by simp
  from assms ne ts tn show "tr = map (\<lambda>i. arr ! i)
               (take (length arr - nat \<lceil>test_size * real (length arr)\<rceil>)
                  (drop (nat \<lceil>test_size * real (length arr)\<rceil>) (permutation (length arr))))"
    by (auto simp: shuffle_split_def Let_def split: if_splits)
  from assms ne ts tn show "te = map (\<lambda>i. arr ! i)
               (take (nat \<lceil>test_size * real (length arr)\<rceil>) (permutation (length arr)))"
    by (auto simp: shuffle_split_def Let_def split: if_splits)
qed

lemma shuffle_split_partition:
  assumes "shuffle_split permutation arr test_size = Inr (tr, te)"
      and "mset (permutation (length arr)) = mset [0..<length arr]"
  shows "mset tr + mset te = mset arr" and "tr \<noteq> []" and "te \<noteq> []"
proof -
  let ?n = "length arr"
  let ?k = "nat \<lceil>test_size * real ?n\<rceil>"
  let ?p = "permutation ?n"
  note f = shuffle_split_Inr [OF assms(1)]
  from assms(2) have len: "length ?p = ?n"
    by (metis size_mset length_upt diff_zero)
  then have dr: "take (?n - ?k) (drop ?k ?p) = drop ?k ?p" by simp
  have td: "mset (take ?k ?p) + mset (drop ?k ?p) = mset ?p"
    by (simp only: mset_append [symmetric] append_take_drop_id)
  have "mset tr + mset te
          = image_mset (\<lambda>i. arr ! i) (mset (take ?k ?p) + mset (drop ?k ?p))"
    unfolding f(5,6) dr by (simp add: add.commute)
  also have "\<dots> = image_mset (\<lambda>i. arr ! i) (mset ?p)" by (simp only: td)
  also have "\<dots> = image_mset (\<lambda>i. arr ! i) (mset [0..<?n])" by (simp only: assms(2))
  also have "\<dots> = mset (map (\<lambda>i. arr ! i) [0..<?n])" by simp
  also have "\<dots> = mset arr" by (simp only: map_nth)
  finally show "mset tr + mset te = mset arr" .
  from f(3,4) len have "length tr = ?n - ?k" "length te = ?k"
    unfolding f(5,6) by simp_all
  with f(3,4) show "tr \<noteq> []" "te \<noteq> []" by auto
qed

lemma rows_of_block:
  assumes "mset tr + mset te = mset (rows_of v dff)"
  shows "rows_of u tr = (if u = v then tr else [])"
    and "rows_of u te = (if u = v then te else [])"
proof -
  have "set_mset (mset tr + mset te) = set (rows_of v dff)"
    by (simp only: assms set_mset_mset)
  then have s: "set tr \<subseteq> set (rows_of v dff)" "set te \<subseteq> set (rows_of v dff)"
    by auto
  then have a: "\<forall>r \<in> set tr. user_id r = v" and b: "\<forall>r \<in> set te. user_id r = v"
    by (auto simp: rows_of_def)
  from a show "rows_of u tr = (if u = v then tr else [])"
    by (auto simp: rows_of_def filter_empty_conv intro: filter_True)
  from b show "rows_of u te = (if u = v then te else [])"
    by (auto simp: rows_of_def filter_empty_conv intro: filter_True)
qed

lemma rows_of_append: "rows_of u (xs @ ys) = rows_of u xs @ rows_of u ys"
  by (simp add: rows_of_def)

lemma split_users_rows:
  assumes "split_users rng dff ts seed m us = Inr (trs, tes)"
      and "distinct us"
      and "\<forall>k. mset (rng seed k) = mset [0..<k]"
  shows "mset (rows_of u (concat trs)) + mset (rows_of u (concat tes)) =
           (if u \<in> set us \<and> m \<le> int (length (rows_of u dff)) then mset (rows_of u dff) else {#})
       \<and> (u \<in> set us \<and> m \<le> int (length (rows_of u dff)) \<longrightarrow>
            rows_of u (concat trs) \<noteq> [] \<and> rows_of u (concat tes) \<noteq> [])
       \<and> (trs = [] \<longrightarrow> tes = [])"
  using assms(1,2)
proof (induction us arbitrary: trs tes)
  case Nil
  then show ?case by (simp add: rows_of_def)
next
  case (Cons v us)
  from Cons.prems(2) have d: "distinct us" and nv: "v \<notin> set us" by simp_all
  show ?case
  proof (cases "m \<le> int (length (rows_of v dff))")
    case False
    with Cons.prems(1) have "split_users rng dff ts seed m us = Inr (trs, tes)"
      by (simp add: rows_of_def)
    from Cons.IH [OF this d] False show ?thesis by auto
  next
    case True
    with Cons.prems(1) obtain tr te trs' tes' where
      tts: "train_test_split rng (rows_of v dff) ts seed = Inr (tr, te)"
      and rest: "split_users rng dff ts seed m us = Inr (trs', tes')"
      and eq: "trs = tr # trs'" "tes = te # tes'"
      by (auto simp: rows_of_def Let_def split: sum.splits)
    from assms(3) have "mset (rng seed (length (rows_of v dff))) = mset [0..<length (rows_of v dff)]"
      by simp
    note p = shuffle_split_partition [OF train_test_split_shuffle [OF tts] this]
    note b = rows_of_block [OF p(1)]
    note ih = Cons.IH [OF rest d]
    show ?thesis
    proof (cases "u = v")
      case u: True
      with nv ih have e: "rows_of u (concat trs') = []" "rows_of u (concat tes') = []"
        by auto
      with u True p b show ?thesis
        by (simp add: eq rows_of_append)
    next
      case False
      with ih b show ?thesis
        by (simp add: eq rows_of_append)
    qed
  qed
qed

lemma split_users_rng:
  assumes "rng' seed = rng seed"
  shows "split_users rng' dff ts seed m us = split_users rng dff ts seed m us"
  by (induction us)
    (simp_all add: assms train_test_split_def check_random_state_def Let_def split: sum.splits)

lemma valid_users_iff:
  "u \<in> set (filter (\<lambda>u. m \<le> int (length (filter (\<lambda>r. user_id r = u) df)))
                (sort (remdups (map user_id df))))
   \<longleftrightarrow> u \<in> user_id ` set df \<and> m \<le> int (length (rows_of u df))"
  by (auto simp: rows_of_def)

lemma rows_of_filtered:
  "rows_of u (filter (\<lambda>r. user_id r \<in> V) df) = (if u \<in> V then rows_of u df else [])"
proof (cases "u \<in> V")
  case True
  have "filter (\<lambda>r. user_id r \<in> V \<and> user_id r = u) df = filter (\<lambda>r. user_id r = u) df"
    using True by (intro filter_cong) auto
  with True show ?thesis by (simp add: rows_of_def)
next
  case False
  have "filter (\<lambda>r. user_id r \<in> V \<and> user_id r = u) df = []"
    using False by (auto simp: filter_empty_conv)
  with False show ?thesis by (simp add: rows_of_def)
qed

lemma rows_of_absent: "u \<notin> user_id ` set df \<Longrightarrow> rows_of u df = []"
  by (auto simp: rows_of_def filter_empty_conv)

lemma split_train_test_rows:
  assumes "split_train_test rng df ts seed m = Inr (train_df, test_df)"
      and "\<forall>k. mset (rng seed k) = mset [0..<k]"
  shows "mset (rows_of u train_df) + mset (rows_of u test_df) =
           (if m \<le> int (length (rows_of u df)) then mset (rows_of u df) else {#})"
    and "u \<in> user_id ` set df \<Longrightarrow> m \<le> int (length (rows_of u df)) \<Longrightarrow>
           rows_of u train_df \<noteq> [] \<and> rows_of u test_df \<noteq> []"
proof -
  define valid where "valid = filter (\<lambda>u. m \<le> int (length (filter (\<lambda>r. user_id r = u) df)))
                (sort (remdups (map user_id df)))"
  define dff where "dff = filter (\<lambda>r. user_id r \<in> set valid) df"
  from assms(1) obtain trs tes where
    su: "split_users rng dff ts seed m valid = Inr (trs, tes)"
    and eq: "train_df = concat trs" "test_df = concat tes"
    unfolding split_train_test_def Let_def valid_def [symmetric] dff_def [symmetric]
    by (auto split: sum.splits if_splits)
  have d: "distinct valid" by (simp add: valid_def)
  have v: "u \<in> set valid \<longleftrightarrow> u \<in> user_id ` set df \<and> m \<le> int (length (rows_of u df))"
    unfolding valid_def by (rule valid_users_iff)
  have f: "rows_of u dff = (if u \<in> set valid then rows_of u df else [])"
    unfolding dff_def by (rule rows_of_filtered)
  note r = split_users_rows [OF su d assms(2), of u, folded eq]
  have r1: "mset (rows_of u train_df) + mset (rows_of u test_df) =
           (if u \<in> set valid \<and> m \<le> int (length (rows_of u dff)) then mset (rows_of u dff) else {#})"
    and r2: "u \<in> set valid \<and> m \<le> int (length (rows_of u dff)) \<longrightarrow>
            rows_of u train_df \<noteq> [] \<and> rows_of u test_df \<noteq> []"
    using r by (rule conjunct1) (rule conjunct1 [OF conjunct2 [OF r]])
  show "mset (rows_of u train_df) + mset (rows_of u test_df) =
           (if m \<le> int (length (rows_of u df)) then mset (rows_of u df) else {#})"
  proof (cases "u \<in> set valid")
    case True
    with v have "m \<le> int (length (rows_of u df))" by blast
    with True r1 f show ?thesis by (simp only: if_True simp_thms)
  next
    case False
    with r1 have z: "mset (rows_of u train_df) + mset (rows_of u test_df) = {#}"
      by (simp only: if_False simp_thms)
    show ?thesis
    proof (cases "u \<in> user_id ` set df")
      case True
      with False v have "\<not> m \<le> int (length (rows_of u df))" by blast
      with z show ?thesis by (simp only: if_False)
    next
      case False
      then have "rows_of u df = []" by (rule rows_of_absent)
      with z show ?thesis by (simp only: mset.simps if_cancel)
    qed
  qed
  show "rows_of u train_df \<noteq> [] \<and> rows_of u test_df \<noteq> []"
    if "u \<in> user_id ` set df" "m \<le> int (length (rows_of u df))"
  proof -
    from that v have t: "u \<in> set valid" by blast
    with f have "rows_of u dff = rows_of u df" by (simp only: if_True)
    with that(2) t r2 show ?thesis by (simp only: simp_thms)
  qed
qed

lemma split_train_test_rng:
  assumes "\<forall>k. rng' seed k = rng seed k"
  shows "split_train_test rng' df ts seed m = split_train_test rng df ts seed m"
proof -
  from assms have "rng' seed = rng seed" by (simp add: fun_eq_iff)
  then have "split_users rng' dff ts seed m us = split_users rng dff ts seed m us" for dff us
    by (rule split_users_rng)
  then show ?thesis
    by (simp add: split_train_test_def)
qed

lemma split_train_test_disjoint:
  assumes "split_train_test rng df ts seed m = Inr (train_df, test_df)"
      and "\<forall>k. mset (rng seed k) = mset [0..<k]"
      and "distinct df"
  shows "set train_df \<inter> set test_df = {}"
proof (rule ccontr)
  assume "set train_df \<inter> set test_df \<noteq> {}"
  then obtain x where x: "x \<in> set train_df" "x \<in> set test_df" by auto
  define u where "u = user_id x"
  from x have a: "x \<in> set (rows_of u train_df)" and b: "x \<in> set (rows_of u test_df)"
    by (simp_all add: rows_of_def u_def)
  from a have ca: "1 \<le> count (mset (rows_of u train_df)) x"
    by (simp add: Suc_le_eq)
  from b have cb: "1 \<le> count (mset (rows_of u test_df)) x"
    by (simp add: Suc_le_eq)
  have "count (mset (rows_of u train_df) + mset (rows_of u test_df)) x
      = count (mset (rows_of u train_df)) x + count (mset (rows_of u test_df)) x"
    by (rule count_union)
  with ca cb have two: "2 \<le> count (mset (rows_of u train_df) + mset (rows_of u test_df)) x"
    by linarith
  have "distinct (rows_of u df)"
    using assms(3) by (simp add: rows_of_def)
  then have one: "count (mset (rows_of u df)) x \<le> 1"
    by (simp add: distinct_count_atmost_1)
  have "mset (rows_of u train_df) + mset (rows_of u test_df) = mset (rows_of u df)
      \<or> mset (rows_of u train_df) + mset (rows_of u test_df) = {#}"
    using split_train_test_rows(1) [OF assms(1,2), of u] by (cases "m \<le> int (length (rows_of u df))") simp_all
  then show False
  proof
    assume "mset (rows_of u train_df) + mset (rows_of u test_df) = mset (rows_of u df)"
    with two have "2 \<le> count (mset (rows_of u df)) x" by (simp only:)
    with one show False by linarith
  next
    assume "mset (rows_of u train_df) + mset (rows_of u test_df) = {#}"
    with two have "2 \<le> count ({#} :: rating_record multiset) x" by (simp only:)
    then show False by simp
  qed
qed

text \<open>
  C3. Let \<open>split_train_test\<close> return \<open>(train_df, test_df)\<close>, the generator seeded with
  \<open>random_state\<close> drawing permutations. For every user with at least
  \<open>min_ratings_per_user\<close> rows, the user's train and test rows together are exactly the
  user's rows of the table, each row on one side only, and a user of the table has a row
  on each side; a user with fewer rows is in neither output; when the table has no
  repeated row the two outputs share no row; and the outputs depend on the generator
  only through what it draws for this seed.
\<close>

theorem split_train_test_partition:
  assumes "split_train_test rng df test_size random_state m = Inr (train_df, test_df)"
      and "\<forall>k. mset (rng random_state k) = mset [0..<k]"
  shows "(\<forall>u. m \<le> int (length (rows_of u df)) \<longrightarrow>
            mset (rows_of u train_df) + mset (rows_of u test_df) = mset (rows_of u df))
       \<and> (\<forall>u. u \<in> user_id ` set df \<and> m \<le> int (length (rows_of u df)) \<longrightarrow>
            rows_of u train_df \<noteq> [] \<and> rows_of u test_df \<noteq> [])
       \<and> (\<forall>u. int (length (rows_of u df)) < m \<longrightarrow>
            rows_of u train_df = [] \<and> rows_of u test_df = [])
       \<and> (distinct df \<longrightarrow> set train_df \<inter> set test_df = {})
       \<and> (\<forall>rng'. (\<forall>k. rng' random_state k = rng random_state k) \<longrightarrow>
            split_train_test rng' df test_size random_state m = Inr (train_df, test_df))"
proof -
  note rows = split_train_test_rows [OF assms]
  have a: "\<forall>u. m \<le> int (length (rows_of u df)) \<longrightarrow>
            mset (rows_of u train_df) + mset (rows_of u test_df) = mset (rows_of u df)"
    using rows(1) by simp
  have b: "\<forall>u. u \<in> user_id ` set df \<and> m \<le> int (length (rows_of u df)) \<longrightarrow>
            rows_of u train_df \<noteq> [] \<and> rows_of u test_df \<noteq> []"
    using rows(2) by blast
  have c: "\<forall>u. int (length (rows_of u df)) < m \<longrightarrow>
            rows_of u train_df = [] \<and> rows_of u test_df = []"
  proof (intro allI impI)
    fix u assume "int (length (rows_of u df)) < m"
    then have "\<not> m \<le> int (length (rows_of u df))" by simp
    with rows(1) [of u] have "mset (rows_of u train_df) + mset (rows_of u test_df) = {#}"
      by (simp only: if_False)
    then show "rows_of u train_df = [] \<and> rows_of u test_df = []" by simp
  qed
  have d: "distinct df \<longrightarrow> set train_df \<inter> set test_df = {}"
    using split_train_test_disjoint [OF assms] by blast
  have e: "\<forall>rng'. (\<forall>k. rng' random_state k = rng random_state k) \<longrightarrow>
            split_train_test rng' df test_size random_state m = Inr (train_df, test_df)"
    using split_train_test_rng [of _ random_state rng df test_size m] assms(1) by simp
  from a b c d e show ?thesis by (intro conjI)
qed

lemma upt5: "[0..<5] = [0, 1, 2, 3, 4]"
  by (simp add: upt_rec)

lemma split_table_result:
  "split_train_test reversing split_table 0.2 42 5 =
     Inr ([mk 1 13 2, mk 1 12 3, mk 1 11 4, mk 1 10 5], [mk 1 14 1])"
  by (simp add: split_train_test_def split_table_def mk_def Let_def train_test_split_def
      check_random_state_def shuffle_split_def reversing_def upt5)

theorem split_train_test_partition_witness:
  "split_train_test reversing split_table 0.2 42 5 =
     Inr ([mk 1 13 2, mk 1 12 3, mk 1 11 4, mk 1 10 5], [mk 1 14 1])
   \<and> mset (rows_of 1 [mk 1 13 2, mk 1 12 3, mk 1 11 4, mk 1 10 5]) + mset (rows_of 1 [mk 1 14 1])
       = mset (rows_of 1 split_table)
   \<and> rows_of 2 [mk 1 13 2, mk 1 12 3, mk 1 11 4, mk 1 10 5] = []
   \<and> rows_of 2 [mk 1 14 1] = []
   \<and> distinct split_table
   \<and> set [mk 1 13 2, mk 1 12 3, mk 1 11 4, mk 1 10 5] \<inter> set [mk 1 14 1] = {}"
proof -
  have p: "\<forall>k. mset (reversing 42 k) = mset [0..<k]"
    by (simp add: reversing_def)
  have l1: "5 \<le> int (length (rows_of 1 split_table))"
    by (simp add: rows_of_def split_table_def mk_def)
  have l2: "int (length (rows_of 2 split_table)) < 5"
    by (simp add: rows_of_def split_table_def mk_def)
  have d: "distinct split_table"
    by (simp add: split_table_def mk_def)
  from split_train_test_partition [OF split_table_result p] l1 l2 d split_table_result
  show ?thesis by blast
qed

subsection \<open>Failures inside the evaluation harness\<close>

lemma filter_swap: "filter A (filter B ys) = filter B (filter A ys)"
  by (induction ys) auto

lemma unique_filter: "unique (filter P xs) = filter P (unique xs)"
proof (induction xs)
  case Nil
  then show ?case by simp
next
  case (Cons x xs)
  show ?case
  proof (cases "P x")
    case True
    have "filter (\<lambda>y. y \<noteq> x) (filter P (unique xs)) = filter P (filter (\<lambda>y. y \<noteq> x) (unique xs))"
      by (rule filter_swap)
    with True Cons show ?thesis
      by (simp del: filter_filter)
  next
    case False
    then have "filter P (filter (\<lambda>y. y \<noteq> x) (unique xs)) = filter P (unique xs)"
      unfolding filter_filter by (intro filter_cong) auto
    with False Cons show ?thesis by (simp del: filter_filter)
  qed
qed

lemma fold_skip:
  assumes "\<And>st. g u st = st"
  shows "fold g (filter (\<lambda>x. x \<noteq> u) us) st = fold g us st"
  by (induction us arbitrary: st) (simp_all add: assms)

lemma user_test_other:
  "uid \<noteq> u \<Longrightarrow>
   filter (\<lambda>r. user_id r = uid) (filter (\<lambda>r. user_id r \<noteq> u) test_df)
     = filter (\<lambda>r. user_id r = uid) test_df"
  unfolding filter_filter by (intro filter_cong) auto

lemma evaluate_user_other:
  assumes "uid \<noteq> u"
  shows "evaluate_user train_df (filter (\<lambda>r. user_id r \<noteq> u) test_df) f ks th uid st
       = evaluate_user train_df test_df f ks th uid st"
  unfolding evaluate_user_def user_test_other [OF assms] ..

lemma evaluate_step_other:
  assumes "uid \<noteq> u"
  shows "evaluate_step train_df (filter (\<lambda>r. user_id r \<noteq> u) test_df) f ks th uid st
       = evaluate_step train_df test_df f ks th uid st"
  by (simp add: evaluate_step_def evaluate_user_other [OF assms])

lemma evaluate_step_raised:
  assumes "evaluate_user train_df test_df f ks th u st = Inl e"
  shows "evaluate_step train_df test_df f ks th u st = st"
  using assms by (simp add: evaluate_step_def)

lemma evaluate_user_failing:
  assumes "f train_df u (Max (set ks)) = Inl e"
  shows "(\<exists>e'. evaluate_user train_df test_df f ks th u st = Inl e')
       \<or> evaluate_user train_df test_df f ks th u st = Inr None"
  using assms by (simp add: evaluate_user_def Let_def)

lemma evaluate_step_failing:
  assumes "f train_df u (Max (set ks)) = Inl e"
  shows "evaluate_step train_df test_df f ks th u st = st"
  using evaluate_user_failing [of f train_df u ks e test_df th st, OF assms]
  by (auto simp: evaluate_step_def)

lemma evaluate_recommendations_skip:
  assumes "f train_df u (Max (set ks)) = Inl e"
  shows "evaluate_recommendations train_df (filter (\<lambda>r. user_id r \<noteq> u) test_df) f ks th
       = evaluate_recommendations train_df test_df f ks th"
proof -
  let ?test' = "filter (\<lambda>r. user_id r \<noteq> u) test_df"
  let ?us = "unique (map user_id test_df)"
  let ?init = "(\<lambda>k. ([], [], []), 0) :: results \<times> nat"
  have us: "unique (map user_id ?test') = filter (\<lambda>x. x \<noteq> u) ?us"
    by (simp add: filter_map comp_def unique_filter [symmetric])
  have "fold (evaluate_step train_df ?test' f ks th) (filter (\<lambda>x. x \<noteq> u) ?us) ?init
      = fold (evaluate_step train_df test_df f ks th) (filter (\<lambda>x. x \<noteq> u) ?us) ?init"
    by (rule fold_cong) (auto simp: evaluate_step_other fun_eq_iff)
  also have "\<dots> = fold (evaluate_step train_df test_df f ks th) ?us ?init"
    by (rule fold_skip) (rule evaluate_step_failing [of f train_df u ks e, OF assms])
  finally show ?thesis
    by (simp add: evaluate_recommendations_def us)
qed

lemma fold_predict_step:
  "fold (predict_step train_df p) test_df acc =
     (fst acc @ map fst (successes train_df p test_df),
      snd acc @ map snd (successes train_df p test_df))"
proof (induction test_df arbitrary: acc)
  case Nil
  then show ?case by (simp add: successes_def)
next
  case (Cons row rows)
  show ?case
  proof (cases "p train_df (user_id row) (product_id row)")
    case (Inl e)
    then have "predict_step train_df p row acc = acc"
      and "successes train_df p (row # rows) = successes train_df p rows"
      by (simp_all add: predict_step_def successes_def)
    with Cons show ?thesis by simp
  next
    case (Inr y)
    then have "predict_step train_df p row acc = (fst acc @ [rating row], snd acc @ [y])"
      and "successes train_df p (row # rows) = (rating row, y) # successes train_df p rows"
      by (simp_all add: predict_step_def successes_def)
    with Cons show ?thesis by simp
  qed
qed

lemma evaluate_rating_prediction_eq:
  "evaluate_rating_prediction train_df test_df p =
     (if successes train_df p test_df = [] then None
      else Some \<lparr>rmse = calculate_rmse (map fst (successes train_df p test_df))
                          (map snd (successes train_df p test_df)),
                 mae = calculate_mae (map fst (successes train_df p test_df))
                          (map snd (successes train_df p test_df)),
                 n_predictions = length (successes train_df p test_df)\<rparr>)"
  by (simp add: evaluate_rating_prediction_def fold_predict_step Let_def)

lemma successes_skip:
  assumes "p train_df u q = Inl e"
  shows "successes train_df p (filter (\<lambda>r. \<not> (user_id r = u \<and> product_id r = q)) test_df)
       = successes train_df p test_df"
  using assms by (induction test_df) (auto simp: successes_def)

lemma evaluate_rating_prediction_skip:
  assumes "p train_df u q = Inl e"
  shows "evaluate_rating_prediction train_df
           (filter (\<lambda>r. \<not> (user_id r = u \<and> product_id r = q)) test_df) p
       = evaluate_rating_prediction train_df test_df p"
  by (simp only: evaluate_rating_prediction_eq successes_skip [of p train_df u q e, OF assms])

text \<open>
  C10. In \<open>evaluate_recommendations\<close> an exception raised for a user leaves the state of
  the loop as it was, and when \<open>recommend_func\<close> raises for a user the result is the
  result on the test table without that user's rows. In \<open>evaluate_rating_prediction\<close> a
  prediction that raises leaves the two lists as they were, and the result is the result
  on the test table without that record; RMSE and MAE are computed over exactly the
  successful predictions, and with no successful prediction the result is the empty one.
\<close>

theorem harness_skips_failures:
  "(\<forall>u st e. evaluate_user train_df test_df recommend_func k_values th u st = Inl e \<longrightarrow>
        evaluate_step train_df test_df recommend_func k_values th u st = st)
   \<and> (\<forall>u e. recommend_func train_df u (Max (set k_values)) = Inl e \<longrightarrow>
        evaluate_recommendations train_df test_df recommend_func k_values th
      = evaluate_recommendations train_df (filter (\<lambda>r. user_id r \<noteq> u) test_df)
          recommend_func k_values th)
   \<and> (\<forall>row acc e. predict_func train_df (user_id row) (product_id row) = Inl e \<longrightarrow>
        predict_step train_df predict_func row acc = acc)
   \<and> (\<forall>u q e. predict_func train_df u q = Inl e \<longrightarrow>
        evaluate_rating_prediction train_df test_df predict_func
      = evaluate_rating_prediction train_df
          (filter (\<lambda>r. \<not> (user_id r = u \<and> product_id r = q)) test_df) predict_func)
   \<and> evaluate_rating_prediction train_df test_df predict_func =
       (if successes train_df predict_func test_df = [] then None
        else Some \<lparr>rmse = calculate_rmse (map fst (successes train_df predict_func test_df))
                            (map snd (successes train_df predict_func test_df)),
                   mae = calculate_mae (map fst (successes train_df predict_func test_df))
                            (map snd (successes train_df predict_func test_df)),
                   n_predictions = length (successes train_df predict_func test_df)\<rparr>)"
proof -
  have a: "\<forall>u st e. evaluate_user train_df test_df recommend_func k_values th u st = Inl e \<longrightarrow>
        evaluate_step train_df test_df recommend_func k_values th u st = st"
    by (simp add: evaluate_step_def)
  have b: "\<forall>u e. recommend_func train_df u (Max (set k_values)) = Inl e \<longrightarrow>
        evaluate_recommendations train_df test_df recommend_func k_values th
      = evaluate_recommendations train_df (filter (\<lambda>r. user_id r \<noteq> u) test_df)
          recommend_func k_values th"
  proof (intro allI impI)
    fix u e assume "recommend_func train_df u (Max (set k_values)) = Inl e"
    then show "evaluate_recommendations train_df test_df recommend_func k_values th
      = evaluate_recommendations train_df (filter (\<lambda>r. user_id r \<noteq> u) test_df)
          recommend_func k_values th"
      by (rule evaluate_recommendations_skip [of recommend_func train_df u k_values e, symmetric])
  qed
  have c: "\<forall>row acc e. predict_func train_df (user_id row) (product_id row) = Inl e \<longrightarrow>
        predict_step train_df predict_func row acc = acc"
    by (simp add: predict_step_def)
  have d: "\<forall>u q e. predict_func train_df u q = Inl e \<longrightarrow>
        evaluate_rating_prediction train_df test_df predict_func
      = evaluate_rating_prediction train_df
          (filter (\<lambda>r. \<not> (user_id r = u \<and> product_id r = q)) test_df) predict_func"
  proof (intro allI impI)
    fix u q e assume "predict_func train_df u q = Inl e"
    then show "evaluate_rating_prediction train_df test_df predict_func
      = evaluate_rating_prediction train_df
          (filter (\<lambda>r. \<not> (user_id r = u \<and> product_id r = q)) test_df) predict_func"
      by (rule evaluate_rating_prediction_skip [of predict_func train_df u q e, symmetric])
  qed
  from a b c d evaluate_rating_prediction_eq [of train_df test_df predict_func]
  show ?thesis by (intro conjI)
qed

lemma harness_fcard: "fcard {|10 :: int|} = 1"
  by (simp add: fcard_finsert_if)

lemma harness_recommendations:
  "fst (evaluate_recommendations [] harness_table failing_recommender [1] 4) 1
     = Some \<lparr>avg_precision = 1, avg_recall = 1, avg_f1 = 1\<rparr>"
  "snd (evaluate_recommendations [] harness_table failing_recommender [1] 4) = 1"
  by (simp_all add: evaluate_recommendations_def harness_table_def mk_def evaluate_step_def
      evaluate_user_def failing_recommender_def Let_def harness_fcard append_metrics_def
      precision_at_k_def recall_at_k_def f1_score_at_k_def slice_to_def summarize_def mean_def
      del: fset_of_list_map fset_of_list_filter)

lemma harness_predictions:
  "evaluate_rating_prediction [] harness_table failing_predictor
     = Some \<lparr>rmse = 1, mae = 1, n_predictions = 1\<rparr>"
  "evaluate_rating_prediction [] [mk 1 10 5] failing_predictor = None"
  by (simp_all add: evaluate_rating_prediction_def harness_table_def mk_def predict_step_def
      failing_predictor_def Let_def calculate_rmse_def calculate_mae_def mean_def)

theorem harness_skips_failures_witness:
  "failing_recommender [] 1 (Max (set [1])) = Inl Failure
   \<and> failing_predictor [] 1 10 = Inl Failure
   \<and> evaluate_recommendations [] harness_table failing_recommender [1] 4
       = evaluate_recommendations [] (filter (\<lambda>r. user_id r \<noteq> 1) harness_table)
           failing_recommender [1] 4
   \<and> fst (evaluate_recommendations [] harness_table failing_recommender [1] 4) 1
       = Some \<lparr>avg_precision = 1, avg_recall = 1, avg_f1 = 1\<rparr>
   \<and> snd (evaluate_recommendations [] harness_table failing_recommender [1] 4) = 1
   \<and> evaluate_rating_prediction [] harness_table failing_predictor
       = evaluate_rating_prediction []
           (filter (\<lambda>r. \<not> (user_id r = 1 \<and> product_id r = 10)) harness_table) failing_predictor
   \<and> evaluate_rating_prediction [] harness_table failing_predictor
       = Some \<lparr>rmse = 1, mae = 1, n_predictions = 1\<rparr>
   \<and> evaluate_rating_prediction [] [mk 1 10 5] failing_predictor = None"
proof -
  have f: "failing_recommender [] 1 (Max (set [1])) = Inl Failure"
    by (simp add: failing_recommender_def)
  have p: "failing_predictor [] 1 10 = Inl Failure"
    by (simp add: failing_predictor_def)
  note t = harness_skips_failures [of "[]" harness_table failing_recommender "[1]" 4
      failing_predictor]
  from t f have r: "evaluate_recommendations [] harness_table failing_recommender [1] 4
       = evaluate_recommendations [] (filter (\<lambda>r. user_id r \<noteq> 1) harness_table)
           failing_recommender [1] 4"
    by blast
  from t p have q: "evaluate_rating_prediction [] harness_table failing_predictor
       = evaluate_rating_prediction []
           (filter (\<lambda>r. \<not> (user_id r = 1 \<and> product_id r = 10)) harness_table) failing_predictor"
    by blast
  from f p r q harness_recommendations harness_predictions show ?thesis
    by (intro conjI)
qed

subsection \<open>The weighted average over the rating table\<close>

lemma raw_matrix_at:
  "matrix_at (observed df (\<lambda>r. Some (rating r))) uid p =
     (if rated_by df uid p then user_rating df uid p else 0)"
proof -
  have "map (\<lambda>c. snd (snd c))
          (filter (\<lambda>c. fst c = uid \<and> fst (snd c) = p) (observed df (\<lambda>r. Some (rating r))))
        = ratings_of df uid p"
    by (simp add: observed_raw filter_map comp_def ratings_of_def)
  then show ?thesis
    by (simp add: matrix_at_def Let_def rated_by_def user_rating_def)
qed

lemma user_rating_positive:
  assumes "\<forall>r \<in> set df. 0 < rating r" and "rated_by df uid p"
  shows "0 < user_rating df uid p"
proof -
  from assms(2) have ne: "ratings_of df uid p \<noteq> []" by (simp add: rated_by_def)
  have "\<forall>x \<in> set (ratings_of df uid p). 0 < x"
    using assms(1) by (auto simp: ratings_of_def)
  with ne show ?thesis unfolding user_rating_def by (rule mean_positive)
qed

lemma raw_cell_rated:
  assumes "\<forall>r \<in> set df. 0 < rating r"
  shows "0 < matrix_at (observed df (\<lambda>r. Some (rating r))) uid p \<longleftrightarrow> rated_by df uid p"
    and "matrix_at (observed df (\<lambda>r. Some (rating r))) uid p = 0 \<longleftrightarrow> \<not> rated_by df uid p"
  using user_rating_positive [OF assms, of uid p] by (auto simp: raw_matrix_at)

lemma raw_pivot_columns:
  "pivot_columns (observed df (\<lambda>r. Some (rating r))) = sort (remdups (map product_id df))"
  by (simp add: pivot_columns_def observed_raw comp_def)

lemma raw_rated_items:
  assumes "\<forall>r \<in> set df. 0 < rating r"
  shows "rated_items_of (observed df (\<lambda>r. Some (rating r))) uid = rated_items_by df uid"
  unfolding rated_items_of_def rated_items_by_def raw_pivot_columns
  by (rule filter_cong) (simp_all add: raw_cell_rated(1) [OF assms])

lemma raw_contributors:
  assumes "\<forall>r \<in> set df. 0 < rating r"
  shows "contributors (observed df (\<lambda>r. Some (rating r))) uid ms other
           = similar_rated df uid ms other"
  by (simp add: contributors_def similar_rated_def raw_rated_items [OF assms] raw_similarity_def)

lemma similar_rated_rated:
  "item \<in> set (similar_rated df uid ms other) \<Longrightarrow> rated_by df uid item"
  by (simp add: similar_rated_def rated_items_by_def)

lemma raw_weighted_sum:
  assumes "\<forall>r \<in> set df. 0 < rating r"
  shows "weighted_sum (observed df (\<lambda>r. Some (rating r))) uid ms other
           = accumulated_score df uid ms other"
proof -
  have "map (\<lambda>item. sim_of (observed df (\<lambda>r. Some (rating r))) other item
                    * matrix_at (observed df (\<lambda>r. Some (rating r))) uid item)
            (similar_rated df uid ms other)
      = map (\<lambda>item. raw_similarity df other item * user_rating df uid item)
            (similar_rated df uid ms other)"
    by (rule map_cong) (simp_all add: raw_matrix_at similar_rated_rated raw_similarity_def)
  then have "sum_list (map (\<lambda>item. sim_of (observed df (\<lambda>r. Some (rating r))) other item
                    * matrix_at (observed df (\<lambda>r. Some (rating r))) uid item)
            (similar_rated df uid ms other))
      = sum_list (map (\<lambda>item. raw_similarity df other item * user_rating df uid item)
            (similar_rated df uid ms other))"
    by (rule arg_cong)
  then show ?thesis
    unfolding weighted_sum_def accumulated_score_def raw_contributors [OF assms] .
qed

lemma raw_weight_sum:
  assumes "\<forall>r \<in> set df. 0 < rating r"
  shows "weight_sum (observed df (\<lambda>r. Some (rating r))) uid ms other
           = accumulated_weight df uid ms other"
  by (simp add: weight_sum_def accumulated_weight_def raw_contributors [OF assms]
      raw_similarity_def)

lemma raw_candidate:
  assumes "\<forall>r \<in> set df. 0 < rating r"
  shows "candidate (observed df (\<lambda>r. Some (rating r))) uid ms other
           \<longleftrightarrow> unrated_candidate df uid ms other"
  by (simp add: candidate_def unrated_candidate_def raw_pivot_columns raw_cell_rated(2) [OF assms]
      raw_contributors [OF assms])

lemma raw_rated_items_nonempty:
  assumes "\<forall>r \<in> set df. 0 < rating r" and "uid \<in> user_id ` set df"
  shows "rated_items_of (observed df (\<lambda>r. Some (rating r))) uid \<noteq> []"
proof -
  from assms(2) obtain r where r: "r \<in> set df" "user_id r = uid" by auto
  from raw_cell_positive [OF assms(1) r(1)] r(2)
  have "0 < matrix_at (observed df (\<lambda>r. Some (rating r))) uid (product_id r)" by simp
  with raw_column_present [OF r(1)] show ?thesis
    by (auto simp: rated_items_of_def filter_empty_conv)
qed

text \<open>
  C2 (as amended). On the raw rating field, with every rating above 0 (the convention of
  the matrix): when both loops have run, \<open>scores\<close> and \<open>score_weights\<close> hold exactly the
  products of the table that the user has not rated and that have similarity at least
  \<open>min_similarity\<close> to at least one item the user rated, with
  \<open>score[other] = \<Sum> similarity \<times> user_rating_of_item\<close> and \<open>weight[other] = \<Sum> |similarity|\<close>
  over those rated items. Every row of the result is such a candidate, and its score is
  the accumulated score divided by the accumulated weight when that weight is positive. A
  candidate of accumulated weight zero is not excluded: it stays in the result, with its
  accumulated score undivided.
\<close>

theorem raw_scores_weighted_average:
  assumes "recommend_for_user df uid n ms False method mci = Inr rows"
      and "\<forall>r \<in> set df. 0 < rating r"
  shows "(\<forall>other.
            map_of (fst (accumulators (rating_cells df False method) uid ms)) other =
              (if unrated_candidate df uid ms other
               then Some (accumulated_score df uid ms other) else None)
          \<and> map_of (snd (accumulators (rating_cells df False method) uid ms)) other =
              (if unrated_candidate df uid ms other
               then Some (accumulated_weight df uid ms other) else None))
       \<and> (\<forall>row \<in> set rows.
            unrated_candidate df uid ms (rec_product_id row)
          \<and> score row =
              (if 0 < accumulated_weight df uid ms (rec_product_id row)
               then accumulated_score df uid ms (rec_product_id row)
                      / accumulated_weight df uid ms (rec_product_id row)
               else accumulated_score df uid ms (rec_product_id row)))"
proof -
  let ?obs = "observed df (\<lambda>r. Some (rating r))"
  have cells: "rating_cells df False method = ?obs"
    by (simp add: rating_cells_def)
  have a: "\<forall>other.
            map_of (fst (accumulators (rating_cells df False method) uid ms)) other =
              (if unrated_candidate df uid ms other
               then Some (accumulated_score df uid ms other) else None)
          \<and> map_of (snd (accumulators (rating_cells df False method) uid ms)) other =
              (if unrated_candidate df uid ms other
               then Some (accumulated_weight df uid ms other) else None)"
    unfolding cells
    by (simp add: accumulators_map_of raw_candidate [OF assms(2)]
        raw_weighted_sum [OF assms(2)] raw_weight_sum [OF assms(2)])
  from assms(1) have user: "uid \<in> user_id ` set df"
    and rs: "recommend_scored df (\<lambda>r. Some (rating r)) uid n ms None = Inr rows"
    by (auto simp: recommend_for_user_def split: if_splits)
  note ne = raw_rated_items_nonempty [OF assms(2) user]
  have b: "unrated_candidate df uid ms (rec_product_id row)
          \<and> score row =
              (if 0 < accumulated_weight df uid ms (rec_product_id row)
               then accumulated_score df uid ms (rec_product_id row)
                      / accumulated_weight df uid ms (rec_product_id row)
               else accumulated_score df uid ms (rec_product_id row))"
    if "row \<in> set rows" for row
    using recommend_scored_scores [OF rs ne that]
    by (simp add: final_score_def raw_candidate [OF assms(2)]
        raw_weighted_sum [OF assms(2)] raw_weight_sum [OF assms(2)])
  from a b show ?thesis by blast
qed

text \<open>
  User 1 of \<open>tied_table\<close> rated products 10 and 11, each 4. Product 30 has similarity
  \<open>0.6\<close> to product 10 and 0 to product 11: with \<open>min_similarity = 0.1\<close> it accumulates
  \<open>2.4\<close> over a weight of \<open>0.6\<close> and is returned with score 4.
\<close>

lemma tied_accumulated:
  "accumulated_weight tied_table 1 0.1 30 = 3 / 5"
  "accumulated_score tied_table 1 0.1 30 = 12 / 5"
  "rated_by tied_table 1 30 = False"
  by (simp_all add: accumulated_weight_def accumulated_score_def similar_rated_def
      rated_items_by_def rated_by_def ratings_of_def user_rating_def raw_similarity_def
      sim_of_def tied_table_def mk_def observed_def pivot_index_def pivot_columns_def
      Let_def matrix_at_def mean_def cosine_similarity_def item_vector_def l2_normalize_def)

theorem raw_scores_weighted_average_witness:
  "recommend_for_user tied_table 1 10 0.1 False ''mean_center'' 2 =
     Inr [\<lparr>rec_product_id = 30, score = 4, estimated_rating = Some 4\<rparr>,
          \<lparr>rec_product_id = 20, score = 4, estimated_rating = Some 4\<rparr>]
   \<and> list_all (\<lambda>r. 0 < rating r) tied_table
   \<and> unrated_candidate tied_table 1 0.1 30
   \<and> accumulated_weight tied_table 1 0.1 30 = 3 / 5
   \<and> accumulated_score tied_table 1 0.1 30 = 12 / 5
   \<and> map_of (fst (accumulators (rating_cells tied_table False ''mean_center'') 1 0.1)) 30
       = Some (12 / 5)
   \<and> map_of (snd (accumulators (rating_cells tied_table False ''mean_center'') 1 0.1)) 30
       = Some (3 / 5)"
proof -
  have p: "\<forall>r \<in> set tied_table. 0 < rating r"
    by (simp add: tied_table_def mk_def)
  then have l: "list_all (\<lambda>r. 0 < rating r) tied_table"
    by (simp add: list_all_iff)
  note t = raw_scores_weighted_average [OF tied_table_result p]
  from t have c: "unrated_candidate tied_table 1 0.1 30" by simp
  from t c have "map_of (fst (accumulators (rating_cells tied_table False ''mean_center'') 1 0.1)) 30
       = Some (accumulated_score tied_table 1 0.1 30)
    \<and> map_of (snd (accumulators (rating_cells tied_table False ''mean_center'') 1 0.1)) 30
       = Some (accumulated_weight tied_table 1 0.1 30)"
    by (simp only: if_True)
  with tied_table_result l c tied_accumulated show ?thesis by simp
qed

text \<open>
  C2 as first stated has the candidates of accumulated weight zero excluded from the
  result. With \<open>min_similarity = 0\<close> user 2 (who rated products 10 and 30) gets product 20,
  whose similarity to both is 0: its accumulated weight is 0 and it is returned with
  score 0.
\<close>

theorem zero_weight_candidate_kept:
  "recommend_for_user tied_table 2 10 0 False ''mean_center'' 2 =
     Inr [\<lparr>rec_product_id = 11, score = 3, estimated_rating = Some 3\<rparr>,
          \<lparr>rec_product_id = 20, score = 0, estimated_rating = Some 0.5\<rparr>]
   \<and> map_of (snd (accumulators (rating_cells tied_table False ''mean_center'') 2 0)) 20 = Some 0"
  using zero_weight_result zero_weight_acc by simp

end
